theory Spec2Isabelle
  imports Main "HOL-Library.Word"
begin

section \<open>Values shared by the coordinator and the leaf stores\<close>

text \<open>
  The embedding follows \<^verbatim>\<open>src/data_base.cpp\<close> and \<^verbatim>\<open>src/memory/accessor.cpp\<close>.
  \<^verbatim>\<open>size_t\<close> is a 64-bit word, so the arithmetic the coordinator writes
  (\<^verbatim>\<open>max_size_t - incoming->size()\<close>, \<^verbatim>\<open>top - fork\<close>, \<^verbatim>\<open>--height\<close>) wraps as it
  does in the program. Hashes and links are opaque and compared for equality only, so they are
  natural numbers. Member names lose the trailing underscore of the source
  (\<^verbatim>\<open>closed_\<close> is \<open>closed\<close>).
\<close>

type_synonym size_t = "64 word"
type_synonym uint32_t = "32 word"
type_synonym hash_digest = nat
type_synonym file_offset = nat

definition max_size_t :: size_t where
  "max_size_t = 0xFFFFFFFFFFFFFFFF"

text \<open>
  The error codes the coordinator returns or passes through. A default-constructed
  \<^verbatim>\<open>code ec;\<close> is \<open>success\<close>, and \<^verbatim>\<open>if (ec)\<close> tests \<open>ec \<noteq> success\<close>.
  \<open>consensus_failure\<close> stands for the verdicts a validator hands to \<^verbatim>\<open>invalidate\<close>.
\<close>

datatype code =
    success
  | store_lock_failure
  | operation_failed
  | duplicate_transaction
  | not_found
  | invalid_fork_point
  | store_block_invalid_height
  | store_block_missing_parent
  | consensus_failure nat

text \<open>
  A header is its hash, its parent's hash and the metadata the coordinator reads and writes.
  \<open>state\<close> is the chain-state pointer of the metadata, reduced to the one value read from it
  (\<^verbatim>\<open>state->median_time_past()\<close>); \<open>None\<close> is the null pointer.
\<close>

record header_metadata =
  exists :: bool
  validated :: bool
  error :: code
  median_time_past :: uint32_t
  state :: "uint32_t option"

record header =
  hash :: hash_digest
  previous_block_hash :: hash_digest
  metadata :: header_metadata

record transaction_metadata =
  link :: file_offset
  existed :: bool

record transaction =
  tx_hash :: hash_digest
  tx_metadata :: transaction_metadata

record block =
  block_header :: header
  transactions :: "transaction list"

record checkpoint =
  checkpoint_hash :: hash_digest
  height :: size_t

text \<open>What \<^verbatim>\<open>std::make_shared<message::header>()\<close> and its block twin construct.\<close>

definition default_header :: header where
  "default_header =
     \<lparr>hash = 0, previous_block_hash = 0,
      metadata = \<lparr>exists = False, validated = False, error = success,
                  median_time_past = 0, state = None\<rparr>\<rparr>"

definition default_block :: block where
  "default_block = \<lparr>block_header = default_header, transactions = []\<rparr>"

section \<open>Leaf stores\<close>

text \<open>
  Modelled from the spec: the block store (\<^verbatim>\<open>block_database\<close>, whose source is not among
  the files embedded here). It records headers by hash, each with its validation verdict and
  its array of transaction links, and keeps the two height-indexed chains, which are
  contiguous and zero-based: position \<open>n\<close> of an index is height \<open>n\<close>. A header is a
  candidate or confirmed exactly when its hash stands in the respective index; the store has
  no operation that removes a header record.
\<close>

record block_row =
  row_header :: header
  row_height :: size_t
  row_median_time_past :: uint32_t
  row_validated :: bool
  row_error :: code
  row_links :: "file_offset list"

record block_database =
  rows :: "hash_digest \<rightharpoonup> block_row"
  candidate_index :: "hash_digest list"
  confirmed_index :: "hash_digest list"

text \<open>
  Modelled from the spec: a \<^verbatim>\<open>block_result\<close>, what \<^verbatim>\<open>get\<close> of the block store returns.
  It tests false (\<open>None\<close>) when nothing is found, and otherwise gives the hash, the header
  and the links of the entry.
\<close>

type_synonym block_result = "(hash_digest \<times> block_row) option"

text \<open>
  Modelled from the spec: the index that the \<^verbatim>\<open>candidate\<close> flag of the block store's
  operations selects, read (\<open>chain_index\<close>) and written (\<open>set_chain_index\<close>).
\<close>

definition chain_index :: "bool \<Rightarrow> block_database \<Rightarrow> hash_digest list" where
  "chain_index candidate db = (if candidate then candidate_index db else confirmed_index db)"

definition set_chain_index :: "bool \<Rightarrow> hash_digest list \<Rightarrow> block_database \<Rightarrow> block_database" where
  "set_chain_index candidate idx db =
     (if candidate then db\<lparr>candidate_index := idx\<rparr> else db\<lparr>confirmed_index := idx\<rparr>)"

text \<open>
  Modelled from the spec: the record of a header that has just been stored, not yet validated
  and with no transaction links.
\<close>

definition fresh_row :: "header \<Rightarrow> size_t \<Rightarrow> uint32_t \<Rightarrow> block_row" where
  "fresh_row h ht mtp =
     \<lparr>row_header = h, row_height = ht, row_median_time_past = mtp,
      row_validated = False, row_error = success, row_links = []\<rparr>"

text \<open>
  Modelled from the spec: \<^verbatim>\<open>block_database::store(header, height, mtp)\<close> records the
  header under its hash.
\<close>

definition block_database_store ::
    "header \<Rightarrow> size_t \<Rightarrow> uint32_t \<Rightarrow> block_database \<Rightarrow> block_database option" where
  "block_database_store h ht mtp db =
     Some (db\<lparr>rows := (rows db)(hash h \<mapsto> fresh_row h ht mtp)\<rparr>)"

text \<open>
  Modelled from the spec: \<^verbatim>\<open>block_database::index(hash, height, candidate)\<close> appends to
  the chosen index. The indices are contiguous and every entry refers to a stored header, so
  the call reports failure unless the header is stored and \<open>height\<close> is the next free
  position.
\<close>

definition block_database_index ::
    "hash_digest \<Rightarrow> size_t \<Rightarrow> bool \<Rightarrow> block_database \<Rightarrow> block_database option" where
  "block_database_index h ht candidate db =
     (if rows db h = None \<or> unat ht \<noteq> length (chain_index candidate db) then None
      else Some (set_chain_index candidate (chain_index candidate db @ [h]) db))"

text \<open>
  Modelled from the spec: \<^verbatim>\<open>block_database::unindex(hash, height, candidate)\<close> removes
  the top entry of the chosen index, and reports failure unless that entry is \<open>hash\<close> at
  \<open>height\<close>. The header's record stays.
\<close>

definition block_database_unindex ::
    "hash_digest \<Rightarrow> size_t \<Rightarrow> bool \<Rightarrow> block_database \<Rightarrow> block_database option" where
  "block_database_unindex h ht candidate db =
     (let idx = chain_index candidate db in
      if idx = [] \<or> Suc (unat ht) \<noteq> length idx \<or> last idx \<noteq> h then None
      else Some (set_chain_index candidate (butlast idx) db))"

text \<open>
  Modelled from the spec: \<^verbatim>\<open>block_database::validate(hash, code)\<close> records a verdict on a
  stored header, and reports failure for a header that is not stored.
\<close>

definition block_database_validate ::
    "hash_digest \<Rightarrow> code \<Rightarrow> block_database \<Rightarrow> block_database option" where
  "block_database_validate h ec db =
     (case rows db h of
        None \<Rightarrow> None
      | Some r \<Rightarrow> Some (db\<lparr>rows := (rows db)(h \<mapsto> r\<lparr>row_validated := True, row_error := ec\<rparr>)\<rparr>))"

text \<open>
  Modelled from the spec: \<^verbatim>\<open>block_database::update(block)\<close> binds a stored header to the
  links of the block's transactions, in the block's order.
\<close>

definition block_database_update :: "block \<Rightarrow> block_database \<Rightarrow> block_database option" where
  "block_database_update blk db =
     (case rows db (hash (block_header blk)) of
        None \<Rightarrow> None
      | Some r \<Rightarrow> Some (db\<lparr>rows := (rows db)(hash (block_header blk) \<mapsto>
          r\<lparr>row_links := map (\<lambda>tx. link (tx_metadata tx)) (transactions blk)\<rparr>)\<rparr>))"

text \<open>Modelled from the spec: \<^verbatim>\<open>block_database::get(hash)\<close>.\<close>

definition block_database_get_hash :: "hash_digest \<Rightarrow> block_database \<Rightarrow> block_result" where
  "block_database_get_hash h db =
     (case rows db h of None \<Rightarrow> None | Some r \<Rightarrow> Some (h, r))"

text \<open>
  Modelled from the spec: \<^verbatim>\<open>block_database::get(height, candidate)\<close>, the entry of the
  chosen index at a height; nothing is found above the top.
\<close>

definition block_database_get :: "size_t \<Rightarrow> bool \<Rightarrow> block_database \<Rightarrow> block_result" where
  "block_database_get ht candidate db =
     (if unat ht < length (chain_index candidate db)
      then block_database_get_hash (chain_index candidate db ! unat ht) db
      else None)"

text \<open>
  Modelled from the spec: \<^verbatim>\<open>block_database::top(out_height, candidate)\<close>, false on an empty
  index and otherwise the height of the last entry.
\<close>

definition block_database_top :: "bool \<Rightarrow> block_database \<Rightarrow> size_t option" where
  "block_database_top candidate db =
     (if chain_index candidate db = [] then None
      else Some (of_nat (length (chain_index candidate db) - 1)))"

text \<open>
  Modelled from the spec: the transaction store (\<^verbatim>\<open>transaction_database\<close>, whose source
  is not among the files embedded here). A link is the position of a transaction's record.
  Each record carries the candidate mark and the confirmation tuple (height, median time
  past, position). The spender heights of previous outputs are left out: no operation of the
  coordinator reads them.
\<close>

record transaction_row =
  row_tx_hash :: hash_digest
  row_candidate :: bool
  row_confirmation :: "(size_t \<times> uint32_t \<times> uint32_t) option"

record transaction_database =
  tx_rows :: "transaction_row list"

text \<open>Modelled from the spec: the link of the record that holds a transaction hash, if any.\<close>

fun find_row :: "hash_digest \<Rightarrow> transaction_row list \<Rightarrow> file_offset \<Rightarrow> file_offset option" where
  "find_row h [] n = None"
| "find_row h (r # rs) n = (if row_tx_hash r = h then Some n else find_row h rs (Suc n))"

text \<open>
  Modelled from the spec: \<^verbatim>\<open>transaction_database::store(tx, forks)\<close> stores a transaction
  if it is missing and always sets its link metadata.
\<close>

definition transaction_database_store ::
    "transaction \<Rightarrow> transaction_database \<Rightarrow> transaction \<times> transaction_database" where
  "transaction_database_store tx db =
     (case find_row (tx_hash tx) (tx_rows db) 0 of
        Some l \<Rightarrow> (tx\<lparr>tx_metadata := \<lparr>link = l, existed = True\<rparr>\<rparr>, db)
      | None \<Rightarrow>
          (tx\<lparr>tx_metadata := \<lparr>link = length (tx_rows db), existed = False\<rparr>\<rparr>,
           db\<lparr>tx_rows := tx_rows db @
             [\<lparr>row_tx_hash = tx_hash tx, row_candidate = False, row_confirmation = None\<rparr>]\<rparr>))"

text \<open>
  Modelled from the spec: \<^verbatim>\<open>transaction_database::store(tx_list)\<close> stores each transaction
  of the list, in order.
\<close>

fun transaction_database_store_list ::
    "transaction list \<Rightarrow> transaction_database \<Rightarrow> transaction list \<times> transaction_database" where
  "transaction_database_store_list [] db = ([], db)"
| "transaction_database_store_list (tx # rest) db =
     (case transaction_database_store tx db of
        (tx', db') \<Rightarrow>
          (case transaction_database_store_list rest db' of
             (rest', db'') \<Rightarrow> (tx' # rest', db'')))"

text \<open>
  Modelled from the spec: a change of the state of the record at a link, which reports failure
  for a link that has no record.
\<close>

definition update_row ::
    "file_offset \<Rightarrow> (transaction_row \<Rightarrow> transaction_row) \<Rightarrow> transaction_database
       \<Rightarrow> transaction_database option" where
  "update_row l f db =
     (if l < length (tx_rows db)
      then Some (db\<lparr>tx_rows := (tx_rows db)[l := f (tx_rows db ! l)]\<rparr>)
      else None)"

text \<open>
  Modelled from the spec: \<^verbatim>\<open>transaction_database::confirm(link, height, mtp, position)\<close>
  sets the confirmation tuple.
\<close>

definition transaction_database_confirm ::
    "file_offset \<Rightarrow> size_t \<Rightarrow> uint32_t \<Rightarrow> uint32_t \<Rightarrow> transaction_database
       \<Rightarrow> transaction_database option" where
  "transaction_database_confirm l ht mtp position =
     update_row l (\<lambda>r. r\<lparr>row_confirmation := Some (ht, mtp, position)\<rparr>)"

text \<open>
  Modelled from the spec: \<^verbatim>\<open>transaction_database::confirm(tx_list, height, mtp)\<close> confirms
  the transactions of a block at positions 0, 1, ... and stops at the first failure.
\<close>

fun transaction_database_confirm_list ::
    "transaction list \<Rightarrow> size_t \<Rightarrow> uint32_t \<Rightarrow> uint32_t \<Rightarrow> transaction_database
       \<Rightarrow> transaction_database option" where
  "transaction_database_confirm_list [] ht mtp position db = Some db"
| "transaction_database_confirm_list (tx # rest) ht mtp position db =
     (case transaction_database_confirm (link (tx_metadata tx)) ht mtp position db of
        None \<Rightarrow> None
      | Some db' \<Rightarrow> transaction_database_confirm_list rest ht mtp (position + 1) db')"

text \<open>
  Modelled from the spec: \<^verbatim>\<open>transaction_database::unconfirm(link)\<close> clears the
  confirmation tuple.
\<close>

definition transaction_database_unconfirm ::
    "file_offset \<Rightarrow> transaction_database \<Rightarrow> transaction_database option" where
  "transaction_database_unconfirm l = update_row l (\<lambda>r. r\<lparr>row_confirmation := None\<rparr>)"

text \<open>
  Modelled from the spec: \<^verbatim>\<open>transaction_database::candidate(link)\<close> sets the candidate
  mark.
\<close>

definition transaction_database_candidate ::
    "file_offset \<Rightarrow> transaction_database \<Rightarrow> transaction_database option" where
  "transaction_database_candidate l = update_row l (\<lambda>r. r\<lparr>row_candidate := True\<rparr>)"

text \<open>
  Modelled from the spec: \<^verbatim>\<open>transaction_database::uncandidate(link)\<close> clears the
  candidate mark.
\<close>

definition transaction_database_uncandidate ::
    "file_offset \<Rightarrow> transaction_database \<Rightarrow> transaction_database option" where
  "transaction_database_uncandidate l = update_row l (\<lambda>r. r\<lparr>row_candidate := False\<rparr>)"

text \<open>
  Modelled from the spec: \<^verbatim>\<open>transaction_database::get(link)\<close> and the
  \<^verbatim>\<open>transaction()\<close> of its result: the stored transaction, with its link in the metadata.
\<close>

definition transaction_database_get ::
    "file_offset \<Rightarrow> transaction_database \<Rightarrow> transaction option" where
  "transaction_database_get l db =
     (if l < length (tx_rows db)
      then Some \<lparr>tx_hash = row_tx_hash (tx_rows db ! l),
                 tx_metadata = \<lparr>link = l, existed = True\<rparr>\<rparr>
      else None)"

section \<open>Verification of preconditions\<close>

text \<open>
  The precondition checks are declared in \<^verbatim>\<open>verify.hpp\<close>; their source is not among the
  files embedded here, so each is modelled from what the specification says it checks.

  Modelled from the spec: \<^verbatim>\<open>verify_top(blocks, height, candidate)\<close>: the top of the chosen
  index equals the height. The spec names no code for its failure; \<open>operation_failed\<close> is
  used, and nothing proved below depends on which non-success code it is.
\<close>

definition verify_top :: "block_database \<Rightarrow> size_t \<Rightarrow> bool \<Rightarrow> code" where
  "verify_top db ht candidate =
     (if block_database_top candidate db = Some ht then success else operation_failed)"

text \<open>
  Modelled from the spec: \<^verbatim>\<open>verify(blocks, fork_point, candidate)\<close>: the fork point's hash
  is the entry at the fork point's height in the chosen index, else \<open>invalid_fork_point\<close>.
\<close>

definition verify :: "block_database \<Rightarrow> checkpoint \<Rightarrow> bool \<Rightarrow> code" where
  "verify db fork_point candidate =
     (case block_database_get (height fork_point) candidate db of
        None \<Rightarrow> invalid_fork_point
      | Some (h, r) \<Rightarrow> if h = checkpoint_hash fork_point then success else invalid_fork_point)"

text \<open>
  Modelled from the spec: \<^verbatim>\<open>verify_exists(blocks, header)\<close>: the header is stored, else
  \<open>not_found\<close>.
\<close>

definition verify_exists :: "block_database \<Rightarrow> header \<Rightarrow> code" where
  "verify_exists db h = (if rows db (hash h) = None then not_found else success)"

text \<open>
  Modelled from the spec: \<^verbatim>\<open>verify_push(blocks, header, height)\<close>: the height is the
  candidate top plus one and the header's parent is the entry at the candidate top.
\<close>

definition verify_push_header :: "block_database \<Rightarrow> header \<Rightarrow> size_t \<Rightarrow> code" where
  "verify_push_header db h ht =
     (case block_database_top True db of
        None \<Rightarrow> store_block_invalid_height
      | Some t \<Rightarrow>
          if ht \<noteq> t + 1 then store_block_invalid_height
          else (case block_database_get t True db of
                  None \<Rightarrow> store_block_missing_parent
                | Some (p, r) \<Rightarrow>
                    if previous_block_hash h = p then success
                    else store_block_missing_parent))"

text \<open>
  Modelled from the spec: \<^verbatim>\<open>verify_push(blocks, block, height)\<close>: the confirmed top is the
  height minus one and the block's header is the entry at the height in the candidate index.
\<close>

definition verify_push_block :: "block_database \<Rightarrow> block \<Rightarrow> size_t \<Rightarrow> code" where
  "verify_push_block db blk ht =
     (case block_database_top False db of
        None \<Rightarrow> store_block_invalid_height
      | Some t \<Rightarrow>
          if ht \<noteq> t + 1 then store_block_invalid_height
          else (case block_database_get ht True db of
                  None \<Rightarrow> store_block_missing_parent
                | Some (h, r) \<Rightarrow>
                    if h = hash (block_header blk) then success
                    else store_block_missing_parent))"

section \<open>The coordinator's state\<close>

text \<open>
  Every call the coordinator makes on a leaf store or on the file locks is written to
  \<open>history\<close>, in program order, whether it succeeds or not; this is what "performs",
  "in order" and "no leaf mutation" are stated against. An assignment to \<^verbatim>\<open>closed_\<close> is
  written to the history as well (\<open>Closed_write\<close> with the value assigned), so that its
  place among the calls can be stated.
\<close>

datatype event =
    Store_open | Store_close | Begin_write | End_write
  | Blocks_open | Blocks_close | Blocks_commit
  | Blocks_store hash_digest size_t uint32_t
  | Blocks_index hash_digest size_t bool
  | Blocks_unindex hash_digest size_t bool
  | Blocks_update hash_digest "file_offset list"
  | Blocks_validate hash_digest code
  | Transactions_open | Transactions_close | Transactions_commit
  | Transactions_store "hash_digest list"
  | Transactions_confirm_all "file_offset list" size_t uint32_t
  | Transactions_confirm file_offset size_t uint32_t uint32_t
  | Transactions_unconfirm file_offset
  | Transactions_candidate file_offset
  | Transactions_uncandidate file_offset
  | Addresses_open | Addresses_close | Addresses_commit
  | Closed_write bool

text \<open>
  The members of \<^verbatim>\<open>data_base\<close>: \<^verbatim>\<open>closed_\<close>, the two settings that are read, the leaf
  stores \<^verbatim>\<open>blocks_\<close> and \<^verbatim>\<open>transactions_\<close> (the address store takes part through its
  calls only), and the flush-lock sentinel of the base class. \<open>faults\<close> is the environment:
  \<open>faults s n\<close> says that the call at position \<open>n\<close> of the history fails for a reason
  outside the stores' data (disk, permissions), leaving them as they are. The write mutex and the
  conditional flush mutex are scoped locks of a single writer and have no effect here.
\<close>

record data_base =
  closed :: bool
  index_addresses :: bool
  flush_writes :: bool
  blocks_db :: block_database
  transactions_db :: transaction_database
  flush_lock :: bool
  history :: "event list"
  faults :: "nat \<Rightarrow> bool"

definition record_call :: "event \<Rightarrow> data_base \<Rightarrow> data_base" where
  "record_call e s = s\<lparr>history := history s @ [e]\<rparr>"

definition faulty :: "data_base \<Rightarrow> bool" where
  "faulty s = faults s (length (history s))"

definition on_blocks ::
    "event \<Rightarrow> (block_database \<Rightarrow> block_database option) \<Rightarrow> data_base \<Rightarrow> bool \<times> data_base" where
  "on_blocks e f s =
     (if faulty s then (False, record_call e s)
      else (case f (blocks_db s) of
              None \<Rightarrow> (False, record_call e s)
            | Some b \<Rightarrow> (True, record_call e (s\<lparr>blocks_db := b\<rparr>))))"

definition on_transactions ::
    "event \<Rightarrow> (transaction_database \<Rightarrow> transaction_database option) \<Rightarrow> data_base
       \<Rightarrow> bool \<times> data_base" where
  "on_transactions e f s =
     (if faulty s then (False, record_call e s)
      else (case f (transactions_db s) of
              None \<Rightarrow> (False, record_call e s)
            | Some t \<Rightarrow> (True, record_call e (s\<lparr>transactions_db := t\<rparr>))))"

definition on_files :: "event \<Rightarrow> data_base \<Rightarrow> bool \<times> data_base" where
  "on_files e s = (\<not> faulty s, record_call e s)"

text \<open>The calls \<^verbatim>\<open>blocks_->...\<close> and \<^verbatim>\<open>transactions_->...\<close> of the coordinator.\<close>

definition blocks_store :: "header \<Rightarrow> size_t \<Rightarrow> uint32_t \<Rightarrow> data_base \<Rightarrow> bool \<times> data_base" where
  "blocks_store h ht mtp = on_blocks (Blocks_store (hash h) ht mtp) (block_database_store h ht mtp)"

definition blocks_index :: "hash_digest \<Rightarrow> size_t \<Rightarrow> bool \<Rightarrow> data_base \<Rightarrow> bool \<times> data_base" where
  "blocks_index h ht candidate =
     on_blocks (Blocks_index h ht candidate) (block_database_index h ht candidate)"

definition blocks_unindex :: "hash_digest \<Rightarrow> size_t \<Rightarrow> bool \<Rightarrow> data_base \<Rightarrow> bool \<times> data_base" where
  "blocks_unindex h ht candidate =
     on_blocks (Blocks_unindex h ht candidate) (block_database_unindex h ht candidate)"

definition blocks_update :: "block \<Rightarrow> data_base \<Rightarrow> bool \<times> data_base" where
  "blocks_update blk =
     on_blocks (Blocks_update (hash (block_header blk))
                  (map (\<lambda>tx. link (tx_metadata tx)) (transactions blk)))
       (block_database_update blk)"

definition blocks_validate :: "hash_digest \<Rightarrow> code \<Rightarrow> data_base \<Rightarrow> bool \<times> data_base" where
  "blocks_validate h ec = on_blocks (Blocks_validate h ec) (block_database_validate h ec)"

definition transactions_store ::
    "transaction list \<Rightarrow> data_base \<Rightarrow> bool \<times> transaction list \<times> data_base" where
  "transactions_store ts s =
     (if faulty s then (False, ts, record_call (Transactions_store (map tx_hash ts)) s)
      else (case transaction_database_store_list ts (transactions_db s) of
              (ts', t) \<Rightarrow>
                (True, ts',
                 record_call (Transactions_store (map tx_hash ts)) (s\<lparr>transactions_db := t\<rparr>))))"

definition transactions_confirm_all ::
    "transaction list \<Rightarrow> size_t \<Rightarrow> uint32_t \<Rightarrow> data_base \<Rightarrow> bool \<times> data_base" where
  "transactions_confirm_all ts ht mtp =
     on_transactions
       (Transactions_confirm_all (map (\<lambda>tx. link (tx_metadata tx)) ts) ht mtp)
       (transaction_database_confirm_list ts ht mtp 0)"

definition transactions_confirm ::
    "file_offset \<Rightarrow> size_t \<Rightarrow> uint32_t \<Rightarrow> uint32_t \<Rightarrow> data_base \<Rightarrow> bool \<times> data_base" where
  "transactions_confirm l ht mtp position =
     on_transactions (Transactions_confirm l ht mtp position)
       (transaction_database_confirm l ht mtp position)"

definition transactions_unconfirm :: "file_offset \<Rightarrow> data_base \<Rightarrow> bool \<times> data_base" where
  "transactions_unconfirm l =
     on_transactions (Transactions_unconfirm l) (transaction_database_unconfirm l)"

definition transactions_candidate :: "file_offset \<Rightarrow> data_base \<Rightarrow> bool \<times> data_base" where
  "transactions_candidate l =
     on_transactions (Transactions_candidate l) (transaction_database_candidate l)"

definition transactions_uncandidate :: "file_offset \<Rightarrow> data_base \<Rightarrow> bool \<times> data_base" where
  "transactions_uncandidate l =
     on_transactions (Transactions_uncandidate l) (transaction_database_uncandidate l)"

text \<open>
  Modelled from the spec: \<^verbatim>\<open>store::begin_write\<close> of the base class (its source is not
  among the files embedded here) creates the flush-lock sentinel when flushing per write is
  configured.
\<close>

definition begin_write :: "data_base \<Rightarrow> bool \<times> data_base" where
  "begin_write s =
     (if faulty s then (False, record_call Begin_write s)
      else (True, record_call Begin_write (s\<lparr>flush_lock := (flush_lock s \<or> flush_writes s)\<rparr>)))"

text \<open>Modelled from the spec: \<^verbatim>\<open>store::end_write\<close> removes the sentinel again.\<close>

definition end_write :: "data_base \<Rightarrow> bool \<times> data_base" where
  "end_write s =
     (if faulty s then (False, record_call End_write s)
      else (True, record_call End_write (s\<lparr>flush_lock := (flush_lock s \<and> \<not> flush_writes s)\<rparr>)))"

text \<open>
  Modelled from the spec: \<^verbatim>\<open>store::open\<close> takes the lock on the directory and refuses a
  sentinel left by an earlier run.
\<close>

definition store_open :: "data_base \<Rightarrow> bool \<times> data_base" where
  "store_open s =
     (if faulty s \<or> flush_lock s then (False, record_call Store_open s)
      else (True, record_call Store_open s))"

text \<open>Modelled from the spec: \<^verbatim>\<open>store::close\<close> releases the lock on the directory.\<close>

definition store_close :: "data_base \<Rightarrow> bool \<times> data_base" where
  "store_close = on_files Store_close"

section \<open>data_base: open, close and commit\<close>

text \<open>\<^verbatim>\<open>data_base::commit\<close>: addresses when indexed, then transactions, then blocks.\<close>

definition commit :: "data_base \<Rightarrow> data_base" where
  "commit s =
     record_call Blocks_commit
       (record_call Transactions_commit
          (if index_addresses s then record_call Addresses_commit s else s))"

text \<open>
  \<^verbatim>\<open>data_base::open\<close> (lines 135-159) and \<^verbatim>\<open>data_base::close\<close> (lines 236-256).
  \<^verbatim>\<open>&&\<close> does not evaluate its right operand when the left one is false. \<open>open\<close>
  assigns \<^verbatim>\<open>closed_ = false\<close> last, after the leaves are open; \<open>close\<close> assigns
  \<^verbatim>\<open>closed_ = true\<close> right after the test of the flag, before its first leaf call.
\<close>

definition open_data_base :: "data_base \<Rightarrow> bool \<times> data_base" where
  "open_data_base s0 =
     (case store_open s0 of (locked, s1) \<Rightarrow>
      if \<not> locked then (False, s1)
      else
        (case on_files Blocks_open s1 of (b, s2) \<Rightarrow>
         case (if b then on_files Transactions_open s2 else (False, s2)) of (opened, s3) \<Rightarrow>
         case (if index_addresses s3 \<and> opened then on_files Addresses_open s3
               else (opened, s3)) of (opened', s4) \<Rightarrow>
         if \<not> opened' then (False, s4)
         else (opened', record_call (Closed_write False) (s4\<lparr>closed := False\<rparr>))))"

definition close :: "data_base \<Rightarrow> bool \<times> data_base" where
  "close s0 =
     (if closed s0 then (True, s0)
      else
        (case on_files Blocks_close (record_call (Closed_write True) (s0\<lparr>closed := True\<rparr>)) of
           (b, s2) \<Rightarrow>
         case (if b then on_files Transactions_close s2 else (False, s2)) of (closed1, s3) \<Rightarrow>
         case (if index_addresses s3 \<and> closed1 then on_files Addresses_close s3
               else (closed1, s3)) of (closed2, s4) \<Rightarrow>
         if closed2 then store_close s4 else (False, s4)))"

text \<open>\<open>close_times n\<close> calls \<open>close\<close> \<open>n\<close> times in sequence and collects what each call returns.\<close>

fun close_times :: "nat \<Rightarrow> data_base \<Rightarrow> bool list \<times> data_base" where
  "close_times 0 s = ([], s)"
| "close_times (Suc n) s =
     (case close s of (r, s') \<Rightarrow>
      case close_times n s' of (rs, s'') \<Rightarrow> (r # rs, s''))"

text \<open>The leaf a life-cycle call acts on, to compare the order of opening and of closing.\<close>

datatype leaf = Blocks | Transactions | Addresses

fun opened_leaf :: "event \<Rightarrow> leaf option" where
  "opened_leaf Blocks_open = Some Blocks"
| "opened_leaf Transactions_open = Some Transactions"
| "opened_leaf Addresses_open = Some Addresses"
| "opened_leaf _ = None"

fun closed_leaf :: "event \<Rightarrow> leaf option" where
  "closed_leaf Blocks_close = Some Blocks"
| "closed_leaf Transactions_close = Some Transactions"
| "closed_leaf Addresses_close = Some Addresses"
| "closed_leaf _ = None"

definition opening_order :: "event list \<Rightarrow> leaf list" where
  "opening_order es = List.map_filter opened_leaf es"

definition closing_order :: "event list \<Rightarrow> leaf list" where
  "closing_order es = List.map_filter closed_leaf es"

section \<open>data_base: public writers\<close>

text \<open>
  Each writer returns its code, the value it leaves in a parameter it can write through
  (\<^verbatim>\<open>header&\<close>, \<^verbatim>\<open>block&\<close>, the out parameters), and the state. A failure after
  \<^verbatim>\<open>begin_write\<close> calls \<^verbatim>\<open>end_write\<close> (its result is only logged) and returns
  \<open>operation_failed\<close>. Debug assertions (\<^verbatim>\<open>BITCOIN_ASSERT\<close>) compile to nothing in a release
  build and are not branches of the model; where the program then reads through a pointer or
  a result that the assertion guards (a null chain state, a link with no transaction), the
  model returns \<open>None\<close>.

  \<^verbatim>\<open>data_base::invalidate\<close> (lines 554-609).
\<close>

definition invalidate :: "header \<Rightarrow> code \<Rightarrow> data_base \<Rightarrow> code \<times> header \<times> data_base" where
  "invalidate h err s0 =
     (if verify_exists (blocks_db s0) h \<noteq> success then (verify_exists (blocks_db s0) h, h, s0)
      else
        (case begin_write s0 of (began, s1) \<Rightarrow>
         if \<not> began then (store_lock_failure, h, s1)
         else
           (case blocks_validate (hash h) err s1 of (ok, s2) \<Rightarrow>
            if \<not> ok then (operation_failed, h, snd (end_write s2))
            else
              (case end_write s2 of (ended, s3) \<Rightarrow>
                 (if ended then success else store_lock_failure,
                  h\<lparr>metadata := (metadata h)\<lparr>error := err, validated := True\<rparr>\<rparr>,
                  s3)))))"

text \<open>
  \<^verbatim>\<open>data_base::push\<close> (lines 708-823). It has no precondition check, and it does not look at
  what \<^verbatim>\<open>blocks_->store\<close> returns.
\<close>

definition push :: "block \<Rightarrow> size_t \<Rightarrow> uint32_t \<Rightarrow> data_base \<Rightarrow> code \<times> block \<times> data_base" where
  "push blk ht mtp s0 =
     (case begin_write s0 of (began, s1) \<Rightarrow>
      if \<not> began then (store_lock_failure, blk, s1)
      else
        (case blocks_store (block_header blk) ht mtp s1 of (unused, s2) \<Rightarrow>
         case blocks_index (hash (block_header blk)) ht True s2 of (indexed, s3) \<Rightarrow>
         if \<not> indexed then (operation_failed, blk, snd (end_write s3))
         else
           (case transactions_store (transactions blk) s3 of (stored, ts, s4) \<Rightarrow>
            if \<not> stored then (operation_failed, blk\<lparr>transactions := ts\<rparr>, snd (end_write s4))
            else
              (case blocks_update (blk\<lparr>transactions := ts\<rparr>) s4 of (updated, s5) \<Rightarrow>
               if \<not> updated
               then (operation_failed, blk\<lparr>transactions := ts\<rparr>, snd (end_write s5))
               else
                 (case transactions_confirm_all ts ht mtp s5 of (confirmed, s6) \<Rightarrow>
                  if \<not> confirmed
                  then (operation_failed, blk\<lparr>transactions := ts\<rparr>, snd (end_write s6))
                  else
                    (case blocks_validate (hash (block_header blk)) success s6 of
                       (valid, s7) \<Rightarrow>
                     if \<not> valid
                     then (operation_failed, blk\<lparr>transactions := ts\<rparr>, snd (end_write s7))
                     else
                       (case blocks_index (hash (block_header blk)) ht False s7 of
                          (indexed', s8) \<Rightarrow>
                        if \<not> indexed'
                        then (operation_failed, blk\<lparr>transactions := ts\<rparr>,
                              snd (end_write s8))
                        else
                          (case end_write (commit s8) of (ended, s9) \<Rightarrow>
                             (if ended then success else store_lock_failure,
                              blk\<lparr>transactions := ts\<rparr>, s9)))))))))"

section \<open>data_base: header reorganization\<close>

text \<open>
  \<^verbatim>\<open>data_base::push_header\<close> (lines 890-939). The results of \<^verbatim>\<open>blocks_->store\<close> and
  \<^verbatim>\<open>blocks_->index\<close> are not looked at.
\<close>

definition push_header :: "header \<Rightarrow> size_t \<Rightarrow> uint32_t \<Rightarrow> data_base \<Rightarrow> code \<times> data_base" where
  "push_header h ht mtp s0 =
     (if verify_push_header (blocks_db s0) h ht \<noteq> success
      then (verify_push_header (blocks_db s0) h ht, s0)
      else
        (case begin_write s0 of (began, s1) \<Rightarrow>
         if \<not> began then (store_lock_failure, s1)
         else
           (case (if \<not> exists (metadata h) then blocks_store h ht mtp s1 else (True, s1)) of
              (unused, s2) \<Rightarrow>
            case blocks_index (hash h) ht True s2 of (unused', s3) \<Rightarrow>
            case end_write (record_call Blocks_commit s3) of (ended, s4) \<Rightarrow>
              (if ended then success else store_lock_failure, s4))))"

text \<open>
  \<^verbatim>\<open>data_base::pop_header\<close> (lines 942-1019). Line 955 tests \<^verbatim>\<open>verify_top\<close> without
  assigning its result, and line 956 returns \<^verbatim>\<open>ec\<close>, which still holds the value of its
  default construction. The loop over the links of the result stops at the first
  \<^verbatim>\<open>uncandidate\<close> that fails. \<^verbatim>\<open>out_header\<close> is assigned after the commit.
\<close>

fun uncandidate_links :: "file_offset list \<Rightarrow> data_base \<Rightarrow> bool \<times> data_base" where
  "uncandidate_links [] s = (True, s)"
| "uncandidate_links (l # ls) s =
     (case transactions_uncandidate l s of (ok, s') \<Rightarrow>
      if \<not> ok then (False, s') else uncandidate_links ls s')"

definition pop_header :: "header \<Rightarrow> size_t \<Rightarrow> data_base \<Rightarrow> code \<times> header \<times> data_base" where
  "pop_header out_header ht s0 =
     (let ec = success in
      if verify_top (blocks_db s0) ht True \<noteq> success then (ec, out_header, s0)
      else
        (case block_database_get ht True (blocks_db s0) of
           None \<Rightarrow> (operation_failed, out_header, s0)
         | Some result \<Rightarrow>
             (case begin_write s0 of (began, s1) \<Rightarrow>
              if \<not> began then (store_lock_failure, out_header, s1)
              else
                (case uncandidate_links (row_links (snd result)) s1 of (ok, s2) \<Rightarrow>
                 if \<not> ok then (operation_failed, out_header, snd (end_write s2))
                 else
                   (case blocks_unindex (fst result) ht True s2 of (unindexed, s3) \<Rightarrow>
                    if \<not> unindexed then (operation_failed, out_header, snd (end_write s3))
                    else
                      (case end_write (record_call Blocks_commit s3) of (ended, s4) \<Rightarrow>
                         (if ended then success else store_lock_failure,
                          row_header (snd result), s4)))))))"

text \<open>
  \<^verbatim>\<open>data_base::push_all\<close> for headers (lines 829-850): the loop over
  \<^verbatim>\<open>index = 0 .. headers->size() - 1\<close> pushes \<^verbatim>\<open>(*headers)[index]\<close> at
  \<^verbatim>\<open>first_height + index\<close>.
\<close>

fun push_all_headers_from ::
    "header list \<Rightarrow> size_t \<Rightarrow> size_t \<Rightarrow> data_base \<Rightarrow> bool \<times> data_base" where
  "push_all_headers_from [] first_height i s = (True, s)"
| "push_all_headers_from (h # hs) first_height i s =
     (case push_header h (first_height + i) (median_time_past (metadata h)) s of (ec, s') \<Rightarrow>
      if ec \<noteq> success then (False, s')
      else push_all_headers_from hs first_height (i + 1) s')"

definition push_all_headers :: "header list \<Rightarrow> checkpoint \<Rightarrow> data_base \<Rightarrow> bool \<times> data_base" where
  "push_all_headers headers fork_point s =
     push_all_headers_from headers (height fork_point + 1) 0 s"

text \<open>
  \<^verbatim>\<open>data_base::pop_above\<close> for headers (lines 852-886). \<open>pop_headers_from\<close> is the loop
  \<^verbatim>\<open>for (height = top; height > fork; --height)\<close>; \<^verbatim>\<open>insert(begin(), next)\<close> puts
  each popped header in front. The list the caller passed is cleared first.
\<close>

function pop_headers_from ::
    "size_t \<Rightarrow> size_t \<Rightarrow> header list \<Rightarrow> data_base \<Rightarrow> bool \<times> header list \<times> data_base" where
  "pop_headers_from ht fork headers s =
     (if fork < ht then
        (case pop_header default_header ht s of (ec, next, s') \<Rightarrow>
           if ec \<noteq> success then (False, headers, s')
           else pop_headers_from (ht - 1) fork (next # headers) s')
      else (True, headers, s))"
  by pat_completeness auto
termination
  by (relation "measure (\<lambda>(ht, fork, headers, s). unat ht)")
     (auto simp: word_less_nat_alt unat_minus_one unat_gt_0 [symmetric])

declare pop_headers_from.simps [simp del]

definition pop_above_headers ::
    "header list \<Rightarrow> checkpoint \<Rightarrow> data_base \<Rightarrow> bool \<times> header list \<times> data_base" where
  "pop_above_headers headers fork_point s =
     (if verify (blocks_db s) fork_point True \<noteq> success then (False, [], s)
      else
        (case block_database_top True (blocks_db s) of
           None \<Rightarrow> (False, [], s)
         | Some top_height \<Rightarrow>
             (let fork = height fork_point; depth = top_height - fork in
              if depth = 0 then (True, [], s)
              else pop_headers_from top_height fork [] s)))"

text \<open>
  \<^verbatim>\<open>data_base::reorganize\<close> for headers (lines 447-465). \<^verbatim>\<open>incoming->size()\<close> is a
  \<^verbatim>\<open>size_t\<close>; the guard is the program's own expression, in word arithmetic.
\<close>

definition reorganize_headers ::
    "checkpoint \<Rightarrow> header list \<Rightarrow> header list \<Rightarrow> data_base \<Rightarrow> code \<times> header list \<times> data_base" where
  "reorganize_headers fork_point incoming outgoing s =
     (if max_size_t - of_nat (length incoming) < height fork_point
      then (operation_failed, outgoing, s)
      else
        (case pop_above_headers outgoing fork_point s of (popped, outgoing', s1) \<Rightarrow>
         if \<not> popped then (operation_failed, outgoing', s1)
         else
           (case push_all_headers incoming fork_point s1 of (pushed, s2) \<Rightarrow>
              (if pushed then success else operation_failed, outgoing', s2))))"

section \<open>data_base: block reorganization\<close>

text \<open>
  \<^verbatim>\<open>data_base::push_block\<close> (lines 1083-1156). The median time past is read through the
  chain-state pointer before anything else; \<open>confirm_transactions\<close> is the loop with
  \<^verbatim>\<open>position++\<close>.
\<close>

fun confirm_transactions ::
    "transaction list \<Rightarrow> size_t \<Rightarrow> uint32_t \<Rightarrow> uint32_t \<Rightarrow> data_base \<Rightarrow> bool \<times> data_base" where
  "confirm_transactions [] ht mtp position s = (True, s)"
| "confirm_transactions (tx # ts) ht mtp position s =
     (case transactions_confirm (link (tx_metadata tx)) ht mtp position s of (ok, s') \<Rightarrow>
      if \<not> ok then (False, s') else confirm_transactions ts ht mtp (position + 1) s')"

definition push_block :: "block \<Rightarrow> size_t \<Rightarrow> data_base \<Rightarrow> (code \<times> data_base) option" where
  "push_block blk ht s0 =
     (case state (metadata (block_header blk)) of
        None \<Rightarrow> None
      | Some mtp \<Rightarrow>
          Some
            (if verify_push_block (blocks_db s0) blk ht \<noteq> success
             then (verify_push_block (blocks_db s0) blk ht, s0)
             else
               (case begin_write s0 of (began, s1) \<Rightarrow>
                if \<not> began then (store_lock_failure, s1)
                else
                  (case confirm_transactions (transactions blk) ht mtp 0 s1 of (ok, s2) \<Rightarrow>
                   if \<not> ok then (operation_failed, snd (end_write s2))
                   else
                     (case blocks_index (hash (block_header blk)) ht False s2 of
                        (indexed, s3) \<Rightarrow>
                      if \<not> indexed then (operation_failed, snd (end_write s3))
                      else
                        (case end_write (commit s3) of (ended, s4) \<Rightarrow>
                           (if ended then success else store_lock_failure, s4)))))))"

text \<open>
  \<^verbatim>\<open>data_base::to_transactions\<close> (lines 1296-1314) reads the transaction at each link of
  the result, in order.
\<close>

fun hydrate :: "transaction_database \<Rightarrow> file_offset list \<Rightarrow> transaction list option" where
  "hydrate db [] = Some []"
| "hydrate db (l # ls) =
     (case transaction_database_get l db of
        None \<Rightarrow> None
      | Some tx \<Rightarrow>
          (case hydrate db ls of None \<Rightarrow> None | Some ts \<Rightarrow> Some (tx # ts)))"

definition to_transactions ::
    "data_base \<Rightarrow> hash_digest \<times> block_row \<Rightarrow> transaction list option" where
  "to_transactions s result = hydrate (transactions_db s) (row_links (snd result))"

text \<open>
  \<^verbatim>\<open>data_base::pop_block\<close> (lines 1158-1238). \<^verbatim>\<open>out_block\<close> is assigned on line 1180,
  before the flush lock is taken and \<^verbatim>\<open>begin_write\<close> is called.
\<close>

fun unconfirm_transactions :: "transaction list \<Rightarrow> data_base \<Rightarrow> bool \<times> data_base" where
  "unconfirm_transactions [] s = (True, s)"
| "unconfirm_transactions (tx # ts) s =
     (case transactions_unconfirm (link (tx_metadata tx)) s of (ok, s') \<Rightarrow>
      if \<not> ok then (False, s') else unconfirm_transactions ts s')"

definition pop_block ::
    "block \<Rightarrow> size_t \<Rightarrow> data_base \<Rightarrow> (code \<times> block \<times> data_base) option" where
  "pop_block out_block ht s0 =
     (if verify_top (blocks_db s0) ht False \<noteq> success
      then Some (verify_top (blocks_db s0) ht False, out_block, s0)
      else
        (case block_database_get ht False (blocks_db s0) of
           None \<Rightarrow> Some (operation_failed, out_block, s0)
         | Some result \<Rightarrow>
             (case to_transactions s0 result of
                None \<Rightarrow> None
              | Some ts \<Rightarrow>
                  (let out_block' = \<lparr>block_header = row_header (snd result), transactions = ts\<rparr>
                   in Some
                     (case begin_write s0 of (began, s1) \<Rightarrow>
                      if \<not> began then (store_lock_failure, out_block', s1)
                      else
                        (case unconfirm_transactions (transactions out_block') s1 of
                           (ok, s2) \<Rightarrow>
                         if \<not> ok then (operation_failed, out_block', snd (end_write s2))
                         else
                           (case blocks_unindex (fst result) ht False s2 of
                              (unindexed, s3) \<Rightarrow>
                            if \<not> unindexed
                            then (operation_failed, out_block', snd (end_write s3))
                            else
                              (case end_write (commit s3) of (ended, s4) \<Rightarrow>
                                 (if ended then success else store_lock_failure,
                                  out_block', s4)))))))))"

text \<open>\<^verbatim>\<open>data_base::push_all\<close> and \<^verbatim>\<open>data_base::pop_above\<close> for blocks (lines 1025-1081).\<close>

fun push_all_blocks_from ::
    "block list \<Rightarrow> size_t \<Rightarrow> size_t \<Rightarrow> data_base \<Rightarrow> (bool \<times> data_base) option" where
  "push_all_blocks_from [] first_height i s = Some (True, s)"
| "push_all_blocks_from (b # bs) first_height i s =
     (case push_block b (first_height + i) s of
        None \<Rightarrow> None
      | Some (ec, s') \<Rightarrow>
          if ec \<noteq> success then Some (False, s')
          else push_all_blocks_from bs first_height (i + 1) s')"

definition push_all_blocks ::
    "block list \<Rightarrow> checkpoint \<Rightarrow> data_base \<Rightarrow> (bool \<times> data_base) option" where
  "push_all_blocks blks fork_point s =
     push_all_blocks_from blks (height fork_point + 1) 0 s"

function pop_blocks_from ::
    "size_t \<Rightarrow> size_t \<Rightarrow> block list \<Rightarrow> data_base \<Rightarrow> (bool \<times> block list \<times> data_base) option" where
  "pop_blocks_from ht fork blks s =
     (if fork < ht then
        (case pop_block default_block ht s of
           None \<Rightarrow> None
         | Some (ec, next, s') \<Rightarrow>
             if ec \<noteq> success then Some (False, blks, s')
             else pop_blocks_from (ht - 1) fork (next # blks) s')
      else Some (True, blks, s))"
  by pat_completeness auto
termination
  by (relation "measure (\<lambda>(ht, fork, blks, s). unat ht)")
     (auto simp: word_less_nat_alt unat_minus_one unat_gt_0 [symmetric])

declare pop_blocks_from.simps [simp del]

definition pop_above_blocks ::
    "block list \<Rightarrow> checkpoint \<Rightarrow> data_base \<Rightarrow> (bool \<times> block list \<times> data_base) option" where
  "pop_above_blocks blks fork_point s =
     (if verify (blocks_db s) fork_point False \<noteq> success then Some (False, [], s)
      else
        (case block_database_top False (blocks_db s) of
           None \<Rightarrow> Some (False, [], s)
         | Some top_height \<Rightarrow>
             (let fork = height fork_point; depth = top_height - fork in
              if depth = 0 then Some (True, [], s)
              else pop_blocks_from top_height fork [] s)))"

text \<open>\<^verbatim>\<open>data_base::reorganize\<close> for blocks (lines 687-704).\<close>

definition reorganize_blocks ::
    "checkpoint \<Rightarrow> block list \<Rightarrow> block list \<Rightarrow> data_base
       \<Rightarrow> (code \<times> block list \<times> data_base) option" where
  "reorganize_blocks fork_point incoming outgoing s =
     (if max_size_t - of_nat (length incoming) < height fork_point
      then Some (operation_failed, outgoing, s)
      else
        (case pop_above_blocks outgoing fork_point s of
           None \<Rightarrow> None
         | Some (popped, outgoing', s1) \<Rightarrow>
             if \<not> popped then Some (operation_failed, outgoing', s1)
             else
               (case push_all_blocks incoming fork_point s1 of
                  None \<Rightarrow> None
                | Some (pushed, s2) \<Rightarrow>
                    Some (if pushed then success else operation_failed, outgoing', s2))))"

section \<open>accessor\<close>

text \<open>
  The calls an accessor makes on its \<^verbatim>\<open>upgrade_mutex\<close>, and the ownership of the mutex
  that the calling thread has. \<open>upgrade_mutex_step\<close> is the lock state machine as the
  specification gives it: \<^verbatim>\<open>lock_upgrade\<close> from no ownership to upgradable-shared,
  \<^verbatim>\<open>unlock_upgrade_and_lock_shared\<close> from upgradable-shared to shared,
  \<^verbatim>\<open>unlock_shared\<close> from shared to none; no other transition is legal (\<open>None\<close>).
\<close>

datatype mutex_call = lock_upgrade | unlock_upgrade_and_lock_shared | unlock_shared

datatype ownership = not_held | upgrade_held | shared_held

fun upgrade_mutex_step :: "ownership \<Rightarrow> mutex_call \<Rightarrow> ownership option" where
  "upgrade_mutex_step not_held lock_upgrade = Some upgrade_held"
| "upgrade_mutex_step upgrade_held unlock_upgrade_and_lock_shared = Some shared_held"
| "upgrade_mutex_step shared_held unlock_shared = Some not_held"
| "upgrade_mutex_step _ _ = None"

fun run_mutex :: "ownership \<Rightarrow> mutex_call list \<Rightarrow> ownership option" where
  "run_mutex h [] = Some h"
| "run_mutex h (c # cs) =
     (case upgrade_mutex_step h c of None \<Rightarrow> None | Some h' \<Rightarrow> run_mutex h' cs)"

text \<open>
  An accessor holds a reference to the mutex and the buffer pointer \<^verbatim>\<open>data_\<close>
  (\<^verbatim>\<open>nullptr\<close> is 0). \<open>mutex\<close> is the sequence of calls this accessor has made through
  the reference. The constructor, \<^verbatim>\<open>buffer\<close>, \<^verbatim>\<open>assign\<close>, \<^verbatim>\<open>increment\<close> (its two
  assertions are debug checks) and the destructor follow \<^verbatim>\<open>accessor.cpp\<close> line by line.
\<close>

record accessor =
  mutex :: "mutex_call list"
  data :: size_t

definition accessor_construct :: accessor where
  "accessor_construct = \<lparr>mutex = [lock_upgrade], data = 0\<rparr>"

definition buffer :: "accessor \<Rightarrow> size_t" where
  "buffer a = data a"

definition assign :: "size_t \<Rightarrow> accessor \<Rightarrow> accessor" where
  "assign d a = a\<lparr>mutex := mutex a @ [unlock_upgrade_and_lock_shared], data := d\<rparr>"

definition increment :: "size_t \<Rightarrow> accessor \<Rightarrow> accessor" where
  "increment n a = a\<lparr>data := data a + n\<rparr>"

definition accessor_destruct :: "accessor \<Rightarrow> mutex_call list" where
  "accessor_destruct a = mutex a @ [unlock_shared]"

text \<open>
  The life of an accessor: construction, any member calls in any order, destruction.
  \<open>lifetime cs\<close> is the sequence of calls the mutex has received when the destructor returns.
\<close>

datatype member_call = call_buffer | call_assign size_t | call_increment size_t

fun apply_call :: "accessor \<Rightarrow> member_call \<Rightarrow> accessor" where
  "apply_call a call_buffer = a"
| "apply_call a (call_assign d) = assign d a"
| "apply_call a (call_increment n) = increment n a"

fun is_assign :: "member_call \<Rightarrow> bool" where
  "is_assign (call_assign d) = True"
| "is_assign _ = False"

definition lifetime :: "member_call list \<Rightarrow> mutex_call list" where
  "lifetime cs = accessor_destruct (foldl apply_call accessor_construct cs)"

section \<open>Sample stores\<close>

text \<open>
  Concrete stores on which the theorems are exercised: a store holding the genesis block
  only, one whose candidate chain has four headers and whose confirmed chain has three
  blocks, and that store with its top candidate unindexed, so that it holds the record of a
  header (\<open>known_header\<close>) that is in no index. \<open>claimed_header\<close> says that it exists;
  the genesis store does not hold it.
\<close>

definition sample_header :: "hash_digest \<Rightarrow> hash_digest \<Rightarrow> header" where
  "sample_header h p =
     \<lparr>hash = h, previous_block_hash = p,
      metadata = \<lparr>exists = False, validated = False, error = success,
                  median_time_past = 7, state = Some 7\<rparr>\<rparr>"

definition sample_row :: "hash_digest \<Rightarrow> hash_digest \<Rightarrow> size_t \<Rightarrow> file_offset list \<Rightarrow> block_row" where
  "sample_row h p ht ls =
     \<lparr>row_header = sample_header h p, row_height = ht, row_median_time_past = 7,
      row_validated = True, row_error = success, row_links = ls\<rparr>"

definition sample_transaction :: "hash_digest \<Rightarrow> transaction" where
  "sample_transaction h = \<lparr>tx_hash = h, tx_metadata = \<lparr>link = 0, existed = False\<rparr>\<rparr>"

definition genesis_store :: data_base where
  "genesis_store =
     \<lparr>closed = False, index_addresses = True, flush_writes = True,
      blocks_db =
        \<lparr>rows = [100 \<mapsto> sample_row 100 0 0 [0]],
         candidate_index = [100], confirmed_index = [100]\<rparr>,
      transactions_db =
        \<lparr>tx_rows = [\<lparr>row_tx_hash = 300, row_candidate = False,
                      row_confirmation = Some (0, 7, 0)\<rparr>]\<rparr>,
      flush_lock = False, history = [], faults = (\<lambda>n. False)\<rparr>"

definition closed_store :: data_base where
  "closed_store = genesis_store\<lparr>closed := True\<rparr>"

definition sample_store :: data_base where
  "sample_store =
     \<lparr>closed = False, index_addresses = True, flush_writes = True,
      blocks_db =
        \<lparr>rows = [100 \<mapsto> sample_row 100 0 0 [0], 101 \<mapsto> sample_row 101 100 1 [1],
                 102 \<mapsto> sample_row 102 101 2 [2, 3], 103 \<mapsto> sample_row 103 102 3 []],
         candidate_index = [100, 101, 102, 103], confirmed_index = [100, 101, 102]\<rparr>,
      transactions_db =
        \<lparr>tx_rows =
           [\<lparr>row_tx_hash = 300, row_candidate = False, row_confirmation = Some (0, 7, 0)\<rparr>,
            \<lparr>row_tx_hash = 301, row_candidate = False, row_confirmation = Some (1, 7, 0)\<rparr>,
            \<lparr>row_tx_hash = 302, row_candidate = False, row_confirmation = Some (2, 7, 0)\<rparr>,
            \<lparr>row_tx_hash = 303, row_candidate = False, row_confirmation = Some (2, 7, 1)\<rparr>]\<rparr>,
      flush_lock = False, history = [], faults = (\<lambda>n. False)\<rparr>"

definition shortened_store :: data_base where
  "shortened_store =
     sample_store\<lparr>blocks_db := (blocks_db sample_store)\<lparr>candidate_index := [100, 101, 102]\<rparr>\<rparr>"

definition known_header :: header where
  "known_header =
     \<lparr>hash = 103, previous_block_hash = 102,
      metadata = \<lparr>exists = True, validated = False, error = success,
                  median_time_past = 7, state = Some 7\<rparr>\<rparr>"

definition claimed_header :: header where
  "claimed_header =
     \<lparr>hash = 101, previous_block_hash = 100,
      metadata = \<lparr>exists = True, validated = False, error = success,
                  median_time_past = 7, state = Some 7\<rparr>\<rparr>"

definition sample_block :: block where
  "sample_block =
     \<lparr>block_header = sample_header 101 100,
      transactions = [sample_transaction 301, sample_transaction 300]\<rparr>"

section \<open>Facts about the leaf calls\<close>

lemmas leaf_defs =
  begin_write_def end_write_def faulty_def record_call_def on_blocks_def on_transactions_def
  on_files_def blocks_store_def blocks_index_def blocks_unindex_def blocks_update_def
  blocks_validate_def transactions_store_def transactions_confirm_all_def
  transactions_confirm_def transactions_unconfirm_def transactions_candidate_def
  transactions_uncandidate_def commit_def store_open_def store_close_def
  fresh_row_def block_database_store_def block_database_index_def block_database_unindex_def
  block_database_validate_def block_database_update_def block_database_get_def
  block_database_get_hash_def block_database_top_def chain_index_def set_chain_index_def
  transaction_database_store_def update_row_def transaction_database_confirm_def
  transaction_database_unconfirm_def transaction_database_candidate_def
  transaction_database_uncandidate_def transaction_database_get_def
  verify_top_def verify_def verify_exists_def verify_push_header_def verify_push_block_def

lemmas sample_defs =
  sample_header_def sample_row_def sample_transaction_def genesis_store_def sample_store_def
  sample_block_def closed_store_def shortened_store_def known_header_def
  claimed_header_def default_header_def

lemma record_call_simps [simp]:
  "history (record_call e s) = history s @ [e]"
  "blocks_db (record_call e s) = blocks_db s"
  "transactions_db (record_call e s) = transactions_db s"
  "closed (record_call e s) = closed s"
  "index_addresses (record_call e s) = index_addresses s"
  "flush_writes (record_call e s) = flush_writes s"
  "flush_lock (record_call e s) = flush_lock s"
  "faults (record_call e s) = faults s"
  by (simp_all add: record_call_def)

lemma commit_simps [simp]:
  "blocks_db (commit s) = blocks_db s"
  "transactions_db (commit s) = transactions_db s"
  "faults (commit s) = faults s"
  "history (commit s) =
     history s @ (if index_addresses s then [Addresses_commit] else []) @
       [Transactions_commit, Blocks_commit]"
  by (simp_all add: commit_def)

lemma on_blocks_True:
  "on_blocks e f s = (True, s') \<longleftrightarrow>
     \<not> faulty s \<and> (\<exists>b. f (blocks_db s) = Some b \<and> s' = record_call e (s\<lparr>blocks_db := b\<rparr>))"
  by (auto simp: on_blocks_def split: option.splits)

lemma on_transactions_True:
  "on_transactions e f s = (True, s') \<longleftrightarrow>
     \<not> faulty s \<and>
     (\<exists>t. f (transactions_db s) = Some t \<and> s' = record_call e (s\<lparr>transactions_db := t\<rparr>))"
  by (auto simp: on_transactions_def split: option.splits)

lemma begin_write_True:
  "begin_write s = (True, s') \<longleftrightarrow>
     \<not> faulty s \<and>
     s' = record_call Begin_write (s\<lparr>flush_lock := (flush_lock s \<or> flush_writes s)\<rparr>)"
  by (auto simp: begin_write_def)

lemma end_write_True:
  "end_write s = (True, s') \<longleftrightarrow>
     \<not> faulty s \<and>
     s' = record_call End_write (s\<lparr>flush_lock := (flush_lock s \<and> \<not> flush_writes s)\<rparr>)"
  by (auto simp: end_write_def)

lemma begin_write_frame [simp]:
  "fst (begin_write s) = (\<not> faulty s)"
  "blocks_db (snd (begin_write s)) = blocks_db s"
  "transactions_db (snd (begin_write s)) = transactions_db s"
  "history (snd (begin_write s)) = history s @ [Begin_write]"
  "faults (snd (begin_write s)) = faults s"
  "index_addresses (snd (begin_write s)) = index_addresses s"
  by (simp_all add: begin_write_def)

lemma end_write_frame [simp]:
  "fst (end_write s) = (\<not> faulty s)"
  "blocks_db (snd (end_write s)) = blocks_db s"
  "transactions_db (snd (end_write s)) = transactions_db s"
  "history (snd (end_write s)) = history s @ [End_write]"
  "faults (snd (end_write s)) = faults s"
  "index_addresses (snd (end_write s)) = index_addresses s"
  by (simp_all add: end_write_def)

lemma top_cong:
  "candidate_index db' = candidate_index db \<Longrightarrow> confirmed_index db' = confirmed_index db \<Longrightarrow>
     block_database_top c db' = block_database_top c db"
  by (simp add: block_database_top_def chain_index_def)

lemma blocks_validate_frame:
  "history (snd (blocks_validate k ec s)) = history s @ [Blocks_validate k ec]"
  "transactions_db (snd (blocks_validate k ec s)) = transactions_db s"
  "faults (snd (blocks_validate k ec s)) = faults s"
  "candidate_index (blocks_db (snd (blocks_validate k ec s))) = candidate_index (blocks_db s)"
  "confirmed_index (blocks_db (snd (blocks_validate k ec s))) = confirmed_index (blocks_db s)"
  "k' \<noteq> k \<Longrightarrow> rows (blocks_db (snd (blocks_validate k ec s))) k' = rows (blocks_db s) k'"
  "fst (blocks_validate k ec s) = (\<not> faulty s \<and> rows (blocks_db s) k \<noteq> None)"
  by (auto simp: blocks_validate_def on_blocks_def block_database_validate_def
      split: option.splits)

lemma blocks_validate_row:
  "fst (blocks_validate k ec s) \<Longrightarrow> rows (blocks_db s) k = Some r \<Longrightarrow>
     rows (blocks_db (snd (blocks_validate k ec s))) k =
       Some (r\<lparr>row_validated := True, row_error := ec\<rparr>)"
  by (auto simp: blocks_validate_def on_blocks_def block_database_validate_def
      split: option.splits if_splits)

lemma on_blocks_frame:
  "on_blocks e f s = (ok, s') \<Longrightarrow>
     history s' = history s @ [e] \<and> transactions_db s' = transactions_db s \<and>
     faults s' = faults s \<and> index_addresses s' = index_addresses s"
  by (auto simp: on_blocks_def split: option.splits if_splits)

lemma transactions_store_True:
  "transactions_store ts s = (True, ts', s') \<Longrightarrow>
     history s' = history s @ [Transactions_store (map tx_hash ts)] \<and>
     blocks_db s' = blocks_db s \<and> index_addresses s' = index_addresses s \<and>
     (ts', transactions_db s') = transaction_database_store_list ts (transactions_db s)"
  by (auto simp: transactions_store_def split: if_splits prod.splits)

lemma index_appends:
  assumes "block_database_index h ht candidate db = Some db'"
  shows "chain_index candidate db' = chain_index candidate db @ [h]"
    and "chain_index (\<not> candidate) db' = chain_index (\<not> candidate) db"
    and "rows db' = rows db" and "rows db h \<noteq> None"
    and "unat ht = length (chain_index candidate db)"
  using assms
  by (auto simp: block_database_index_def chain_index_def set_chain_index_def split: if_splits)

lemma validate_keeps:
  assumes "block_database_validate h ec db = Some db'"
  shows "candidate_index db' = candidate_index db" and "confirmed_index db' = confirmed_index db"
    and "rows db' k \<noteq> None \<longleftrightarrow> rows db k \<noteq> None"
  using assms by (auto simp: block_database_validate_def split: option.splits if_splits)

lemma update_keeps:
  assumes "block_database_update blk db = Some db'"
  shows "candidate_index db' = candidate_index db" and "confirmed_index db' = confirmed_index db"
    and "rows db' k \<noteq> None \<longleftrightarrow> rows db k \<noteq> None"
  using assms by (auto simp: block_database_update_def split: option.splits if_splits)

lemma top_of_appended:
  "unat ht = length idx \<Longrightarrow> chain_index candidate db = idx @ [h] \<Longrightarrow>
     block_database_top candidate db = Some ht"
proof -
  assume len: "unat ht = length idx" and idx: "chain_index candidate db = idx @ [h]"
  have "(of_nat (unat ht) :: size_t) = ht"
    by simp
  with len have "(of_nat (length idx) :: size_t) = ht"
    by simp
  with idx show ?thesis
    by (simp add: block_database_top_def)
qed

lemma get_of_appended:
  "unat ht = length idx \<Longrightarrow> chain_index candidate db = idx @ [h] \<Longrightarrow> rows db h = Some r \<Longrightarrow>
     block_database_get ht candidate db = Some (h, r)"
  by (simp add: block_database_get_def block_database_get_hash_def)

section \<open>Facts about popping\<close>

lemma on_transactions_frame:
  "on_transactions e f s = (ok, s') \<Longrightarrow>
     history s' = history s @ [e] \<and> blocks_db s' = blocks_db s \<and> faults s' = faults s \<and>
     index_addresses s' = index_addresses s"
  by (auto simp: on_transactions_def split: option.splits if_splits)

lemma update_row_length:
  "update_row l f db = Some db' \<Longrightarrow> length (tx_rows db') = length (tx_rows db)"
  by (auto simp: update_row_def split: if_splits)

lemma update_row_hash:
  "update_row l f db = Some db' \<Longrightarrow> (\<And>r. row_tx_hash (f r) = row_tx_hash r) \<Longrightarrow>
     map row_tx_hash (tx_rows db') = map row_tx_hash (tx_rows db)"
  by (auto simp: update_row_def map_update list_update_same_conv split: if_splits)

lemma transactions_uncandidate_frame:
  assumes "transactions_uncandidate l s = (ok, s')"
  shows "blocks_db s' = blocks_db s" and "faults s' = faults s"
    and "history s' = history s @ [Transactions_uncandidate l]"
    and "length (tx_rows (transactions_db s')) = length (tx_rows (transactions_db s))"
    and "ok \<longleftrightarrow> \<not> faulty s \<and> l < length (tx_rows (transactions_db s))"
  using assms
  by (auto simp: transactions_uncandidate_def on_transactions_def
      transaction_database_uncandidate_def update_row_def split: if_splits)

lemma uncandidate_links_frame:
  "uncandidate_links ls s = (ok, s') \<Longrightarrow>
     blocks_db s' = blocks_db s \<and> faults s' = faults s \<and>
     length (tx_rows (transactions_db s')) = length (tx_rows (transactions_db s))"
proof (induction ls arbitrary: s)
  case Nil
  then show ?case by simp
next
  case (Cons l ls)
  obtain ok1 s1 where u: "transactions_uncandidate l s = (ok1, s1)"
    by (cases "transactions_uncandidate l s")
  show ?case
  proof (cases ok1)
    case True
    with Cons.prems u have "uncandidate_links ls s1 = (ok, s')"
      by simp
    from Cons.IH [OF this] transactions_uncandidate_frame [OF u] show ?thesis
      by simp
  next
    case False
    with Cons.prems u have "s' = s1"
      by simp
    with transactions_uncandidate_frame [OF u] show ?thesis
      by simp
  qed
qed



lemma pop_header_unfold:
  assumes "verify_top (blocks_db s) ht True = success"
    and "block_database_get ht True (blocks_db s) = Some (h, r)"
    and "\<not> faulty s"
  shows "pop_header out ht s =
     (case uncandidate_links (row_links r) (snd (begin_write s)) of (ok, s2) \<Rightarrow>
        if \<not> ok then (operation_failed, out, snd (end_write s2))
        else (case blocks_unindex h ht True s2 of (unindexed, s3) \<Rightarrow>
                if \<not> unindexed then (operation_failed, out, snd (end_write s3))
                else (if fst (end_write (record_call Blocks_commit s3)) then success
                      else store_lock_failure,
                      row_header r, snd (end_write (record_call Blocks_commit s3)))))"
  using assms by (simp add: pop_header_def case_prod_beta)

lemma transactions_unconfirm_frame:
  assumes "transactions_unconfirm l s = (ok, s')"
  shows "blocks_db s' = blocks_db s" and "faults s' = faults s"
    and "map row_tx_hash (tx_rows (transactions_db s')) =
         map row_tx_hash (tx_rows (transactions_db s))"
proof -
  from assms show "blocks_db s' = blocks_db s" and "faults s' = faults s"
    by (auto simp: transactions_unconfirm_def dest: on_transactions_frame)
  show "map row_tx_hash (tx_rows (transactions_db s')) =
         map row_tx_hash (tx_rows (transactions_db s))"
  proof (cases ok)
    case True
    with assms obtain t where
      t: "update_row l (\<lambda>r. r\<lparr>row_confirmation := None\<rparr>) (transactions_db s) = Some t"
        "transactions_db s' = t"
      by (auto simp: transactions_unconfirm_def on_transactions_True
          transaction_database_unconfirm_def)
    from update_row_hash [OF t(1)] t(2) show ?thesis
      by simp
  next
    case False
    with assms have "transactions_db s' = transactions_db s"
      by (auto simp: transactions_unconfirm_def on_transactions_def
          split: if_splits option.splits)
    then show ?thesis
      by simp
  qed
qed

lemma unconfirm_transactions_frame:
  "unconfirm_transactions ts s = (ok, s') \<Longrightarrow>
     blocks_db s' = blocks_db s \<and> faults s' = faults s \<and>
     map row_tx_hash (tx_rows (transactions_db s')) =
       map row_tx_hash (tx_rows (transactions_db s))"
proof (induction ts arbitrary: s)
  case Nil
  then show ?case by simp
next
  case (Cons tx ts)
  obtain ok1 s1 where u: "transactions_unconfirm (link (tx_metadata tx)) s = (ok1, s1)"
    by (cases "transactions_unconfirm (link (tx_metadata tx)) s")
  show ?case
  proof (cases ok1)
    case True
    with Cons.prems u have "unconfirm_transactions ts s1 = (ok, s')"
      by simp
    from Cons.IH [OF this] transactions_unconfirm_frame [OF u] show ?thesis
      by simp
  next
    case False
    with Cons.prems u have "s' = s1"
      by simp
    with transactions_unconfirm_frame [OF u] show ?thesis
      by simp
  qed
qed

lemma get_depends_on_hashes:
  assumes "map row_tx_hash (tx_rows db') = map row_tx_hash (tx_rows db)"
  shows "transaction_database_get l db' = transaction_database_get l db"
proof -
  from assms have len: "length (tx_rows db') = length (tx_rows db)"
    by (rule map_eq_imp_length_eq)
  have "row_tx_hash (tx_rows db' ! l) = row_tx_hash (tx_rows db ! l)" if l: "l < length (tx_rows db)"
  proof -
    have "row_tx_hash (tx_rows db' ! l) = map row_tx_hash (tx_rows db') ! l"
      using l len by simp
    also have "\<dots> = map row_tx_hash (tx_rows db) ! l"
      by (simp only: assms)
    also have "\<dots> = row_tx_hash (tx_rows db ! l)"
      using l by simp
    finally show ?thesis .
  qed
  with len show ?thesis
    by (simp add: transaction_database_get_def)
qed

lemma hydrate_depends_on_hashes:
  assumes "map row_tx_hash (tx_rows db') = map row_tx_hash (tx_rows db)"
  shows "hydrate db' ls = hydrate db ls"
proof (induction ls)
  case Nil
  then show ?case by simp
next
  case (Cons l ls)
  then show ?case
    by (simp add: get_depends_on_hashes [OF assms, of l] split: option.splits)
qed

lemma pop_block_unfold:
  assumes "verify_top (blocks_db s) ht False = success"
    and "block_database_get ht False (blocks_db s) = Some (h, r)"
    and "hydrate (transactions_db s) (row_links r) = Some ts"
    and "\<not> faulty s"
  shows "pop_block out ht s =
     Some (case unconfirm_transactions ts (snd (begin_write s)) of (ok, s2) \<Rightarrow>
        if \<not> ok
        then (operation_failed, \<lparr>block_header = row_header r, transactions = ts\<rparr>,
              snd (end_write s2))
        else (case blocks_unindex h ht False s2 of (unindexed, s3) \<Rightarrow>
                if \<not> unindexed
                then (operation_failed, \<lparr>block_header = row_header r, transactions = ts\<rparr>,
                      snd (end_write s3))
                else (if fst (end_write (commit s3)) then success else store_lock_failure,
                      \<lparr>block_header = row_header r, transactions = ts\<rparr>,
                      snd (end_write (commit s3)))))"
  using assms by (simp add: pop_block_def to_transactions_def Let_def case_prod_beta)

section \<open>push\<close>

lemma push_success_steps:
  assumes "push blk ht mtp s = (success, blk', s')"
  shows "\<exists>s1 u s2 s3 ts s4 s5 s6 s7 s8.
           begin_write s = (True, s1) \<and>
           blocks_store (block_header blk) ht mtp s1 = (u, s2) \<and>
           blocks_index (hash (block_header blk)) ht True s2 = (True, s3) \<and>
           transactions_store (transactions blk) s3 = (True, ts, s4) \<and>
           blocks_update (blk\<lparr>transactions := ts\<rparr>) s4 = (True, s5) \<and>
           transactions_confirm_all ts ht mtp s5 = (True, s6) \<and>
           blocks_validate (hash (block_header blk)) success s6 = (True, s7) \<and>
           blocks_index (hash (block_header blk)) ht False s7 = (True, s8) \<and>
           end_write (commit s8) = (True, s') \<and>
           blk' = blk\<lparr>transactions := ts\<rparr>"
  using assms by (auto simp: push_def split: prod.splits if_splits)


lemma push_sample: "fst (push sample_block 1 7 genesis_store) = success"
  by (simp add: push_def leaf_defs sample_defs)

text \<open>
  C1. Whenever \<open>push\<close> returns \<open>success\<close> for a block, a height and a median time past,
  the top of the candidate index and the top of the confirmed index both equal the height,
  the entry at that height in either index is the block's hash, and the calls \<open>push\<close> has
  made are, in this order: \<^verbatim>\<open>begin_write\<close>, \<^verbatim>\<open>blocks.store\<close>, \<^verbatim>\<open>blocks.index\<close> on the
  candidate index, \<^verbatim>\<open>transactions.store\<close>, \<^verbatim>\<open>blocks.update\<close>,
  \<^verbatim>\<open>transactions.confirm\<close>, \<^verbatim>\<open>blocks.validate\<close> with \<open>success\<close>,
  \<^verbatim>\<open>blocks.index\<close> on the confirmed index, the commits, \<^verbatim>\<open>end_write\<close>.
\<close>

theorem push_success:
  assumes "push blk ht mtp s = (success, blk', s')"
  shows "block_database_top True (blocks_db s') = Some ht \<and>
         block_database_top False (blocks_db s') = Some ht \<and>
         (\<exists>r. block_database_get ht True (blocks_db s') = Some (hash (block_header blk), r)) \<and>
         (\<exists>r. block_database_get ht False (blocks_db s') = Some (hash (block_header blk), r)) \<and>
         history s' = history s @
           [Begin_write,
            Blocks_store (hash (block_header blk)) ht mtp,
            Blocks_index (hash (block_header blk)) ht True,
            Transactions_store (map tx_hash (transactions blk)),
            Blocks_update (hash (block_header blk))
              (map (\<lambda>tx. link (tx_metadata tx)) (transactions blk')),
            Transactions_confirm_all (map (\<lambda>tx. link (tx_metadata tx)) (transactions blk')) ht mtp,
            Blocks_validate (hash (block_header blk)) success,
            Blocks_index (hash (block_header blk)) ht False] @
           (if index_addresses s then [Addresses_commit] else []) @
           [Transactions_commit, Blocks_commit, End_write]"
proof -
  let ?h = "hash (block_header blk)"
  from push_success_steps [OF assms] obtain s1 u s2 s3 ts s4 s5 s6 s7 s8 where
    b: "begin_write s = (True, s1)" and
    st: "blocks_store (block_header blk) ht mtp s1 = (u, s2)" and
    ic: "blocks_index ?h ht True s2 = (True, s3)" and
    ts: "transactions_store (transactions blk) s3 = (True, ts, s4)" and
    up: "blocks_update (blk\<lparr>transactions := ts\<rparr>) s4 = (True, s5)" and
    cf: "transactions_confirm_all ts ht mtp s5 = (True, s6)" and
    va: "blocks_validate ?h success s6 = (True, s7)" and
    ix: "blocks_index ?h ht False s7 = (True, s8)" and
    en: "end_write (commit s8) = (True, s')" and
    blk': "blk' = blk\<lparr>transactions := ts\<rparr>"
    by blast
  from b have h1: "history s1 = history s @ [Begin_write]" "index_addresses s1 = index_addresses s"
    by (auto simp: begin_write_True)
  from st have h2: "history s2 = history s1 @ [Blocks_store ?h ht mtp]"
      "index_addresses s2 = index_addresses s1"
    by (auto simp: blocks_store_def dest: on_blocks_frame)
  from ic obtain b3 where
    i3: "block_database_index ?h ht True (blocks_db s2) = Some b3" and
    s3: "s3 = record_call (Blocks_index ?h ht True) (s2\<lparr>blocks_db := b3\<rparr>)"
    by (auto simp: blocks_index_def on_blocks_True)
  from ts have s4: "history s4 = history s3 @ [Transactions_store (map tx_hash (transactions blk))]"
      "blocks_db s4 = blocks_db s3" "index_addresses s4 = index_addresses s3"
    by (auto dest: transactions_store_True)
  from up obtain b5 where
    u5: "block_database_update (blk\<lparr>transactions := ts\<rparr>) (blocks_db s4) = Some b5" and
    s5: "s5 = record_call (Blocks_update ?h (map (\<lambda>tx. link (tx_metadata tx)) ts))
                (s4\<lparr>blocks_db := b5\<rparr>)"
    by (auto simp: blocks_update_def on_blocks_True)
  from cf obtain t6 where
    s6: "s6 = record_call (Transactions_confirm_all (map (\<lambda>tx. link (tx_metadata tx)) ts) ht mtp)
                (s5\<lparr>transactions_db := t6\<rparr>)"
    by (auto simp: transactions_confirm_all_def on_transactions_True)
  from va obtain b7 where
    v7: "block_database_validate ?h success (blocks_db s6) = Some b7" and
    s7: "s7 = record_call (Blocks_validate ?h success) (s6\<lparr>blocks_db := b7\<rparr>)"
    by (auto simp: blocks_validate_def on_blocks_True)
  from ix obtain b8 where
    i8: "block_database_index ?h ht False (blocks_db s7) = Some b8" and
    s8: "s8 = record_call (Blocks_index ?h ht False) (s7\<lparr>blocks_db := b8\<rparr>)"
    by (auto simp: blocks_index_def on_blocks_True)
  from en have s': "blocks_db s' = blocks_db s8"
      "history s' = history (commit s8) @ [End_write]"
    by (auto simp: end_write_True)
  have cand3: "candidate_index b3 = candidate_index (blocks_db s2) @ [?h]"
      and len3: "unat ht = length (candidate_index (blocks_db s2))"
      and conf3: "confirmed_index b3 = confirmed_index (blocks_db s2)"
      and row3: "rows b3 ?h \<noteq> None"
    using index_appends [OF i3] by (simp_all add: chain_index_def)
  have b5: "candidate_index b5 = candidate_index b3" "rows b5 ?h \<noteq> None"
    using update_keeps [OF u5] row3 by (simp_all add: s4 s3)
  have b7: "candidate_index b7 = candidate_index b3" "rows b7 ?h \<noteq> None"
    using validate_keeps [OF v7] b5 by (simp_all add: s6 s5)
  have b8: "candidate_index b8 = candidate_index b3" "rows b8 ?h \<noteq> None"
      "confirmed_index b8 = confirmed_index b7 @ [?h]"
      "unat ht = length (confirmed_index b7)"
    using index_appends [OF i8] b7 by (simp_all add: s7 chain_index_def)
  from b8(2) obtain r where r: "rows b8 ?h = Some r"
    by auto
  have fin: "blocks_db s' = b8"
    by (simp add: s' s8)
  have "block_database_top True (blocks_db s') = Some ht"
    by (rule top_of_appended [OF len3]) (simp add: fin chain_index_def b8 cand3)
  moreover have "block_database_top False (blocks_db s') = Some ht"
    by (rule top_of_appended [OF b8(4)]) (simp add: fin chain_index_def b8)
  moreover have "block_database_get ht True (blocks_db s') = Some (?h, r)"
    by (rule get_of_appended [OF len3]) (simp_all add: fin chain_index_def b8 cand3 r)
  moreover have "block_database_get ht False (blocks_db s') = Some (?h, r)"
    by (rule get_of_appended [OF b8(4)]) (simp_all add: fin chain_index_def b8 r)
  moreover have "history s' = history s @
           [Begin_write,
            Blocks_store ?h ht mtp,
            Blocks_index ?h ht True,
            Transactions_store (map tx_hash (transactions blk)),
            Blocks_update ?h (map (\<lambda>tx. link (tx_metadata tx)) (transactions blk')),
            Transactions_confirm_all (map (\<lambda>tx. link (tx_metadata tx)) (transactions blk')) ht mtp,
            Blocks_validate ?h success,
            Blocks_index ?h ht False] @
           (if index_addresses s then [Addresses_commit] else []) @
           [Transactions_commit, Blocks_commit, End_write]"
    by (simp add: s' s8 s7 s6 s5 s4 s3 h2 h1 blk')
  ultimately show ?thesis
    by blast
qed



theorem push_success_witness:
  "fst (push sample_block 1 7 genesis_store) = success \<and>
   block_database_top True (blocks_db (snd (snd (push sample_block 1 7 genesis_store)))) = Some 1 \<and>
   block_database_top False (blocks_db (snd (snd (push sample_block 1 7 genesis_store)))) = Some 1"
proof -
  have e: "push sample_block 1 7 genesis_store =
      (success, fst (snd (push sample_block 1 7 genesis_store)),
       snd (snd (push sample_block 1 7 genesis_store)))"
    using push_sample by (simp add: prod_eq_iff)
  from push_success [OF e] push_sample show ?thesis
    by simp
qed

section \<open>pop_header\<close>

lemma pop_header_wrong_top:
  "verify_top (blocks_db s) ht True \<noteq> success \<Longrightarrow> pop_header out ht s = (success, out, s)"
  by (simp add: pop_header_def)

text \<open>
  C2. On the genesis store the candidate top is 0, so \<open>verify_top\<close> fails for height 5 with
  a code that is not \<open>success\<close>. \<open>pop_header\<close> then makes no call at all and leaves the
  state and the out parameter as they were, as the claim says; but the code it returns is
  \<open>success\<close>, not the code of the failed precondition.
\<close>

theorem pop_header_wrong_top_returns_success:
  "verify_top (blocks_db genesis_store) 5 True = operation_failed \<and>
   pop_header default_header 5 genesis_store = (success, default_header, genesis_store)"
proof -
  have v: "verify_top (blocks_db genesis_store) 5 True = operation_failed"
    by (simp add: leaf_defs sample_defs)
  then show ?thesis
    by (simp add: pop_header_wrong_top)
qed

section \<open>push_header followed by pop_header\<close>








section \<open>pop_above\<close>

lemma loop_step:
  assumes "(fork :: size_t) < ht"
  shows "unat (ht - 1) = unat ht - 1" and "0 < unat ht" and "fork \<le> ht - 1"
    and "unat fork < unat ht"
proof -
  from assms show lt: "unat fork < unat ht"
    by (simp add: word_less_nat_alt)
  then show pos: "0 < unat ht"
    by arith
  then have "ht \<noteq> 0"
    by (simp add: unat_gt_0)
  then show m: "unat (ht - 1) = unat ht - 1"
    by (simp add: unat_minus_one)
  from lt show "fork \<le> ht - 1"
    by (simp add: word_le_nat_alt m)
qed

lemma top_is_length:
  assumes "block_database_top c db = Some t" and "length (chain_index c db) \<le> 2 ^ 64"
  shows "Suc (unat t) = length (chain_index c db)"
proof -
  let ?n = "length (chain_index c db)"
  from assms(1) have n: "0 < ?n" and t: "t = of_nat (?n - 1)"
    by (auto simp: block_database_top_def split: if_splits)
  from n assms(2) have "?n - 1 < 2 ^ 64"
    by arith
  then have "unat t = ?n - 1"
    by (simp add: t unat_of_nat)
  with n show ?thesis
    by arith
qed

lemma length_is_top:
  assumes "Suc (unat t) = length (chain_index c db)"
  shows "block_database_top c db = Some t"
proof -
  have "(of_nat (unat t) :: size_t) = t"
    by simp
  moreover from assms have "length (chain_index c db) - 1 = unat t" "chain_index c db \<noteq> []"
    by auto
  ultimately show ?thesis
    by (simp add: block_database_top_def)
qed

lemma height_above_fork:
  assumes "unat (fork :: size_t) + 1 + i < 2 ^ 64"
  shows "unat (fork + 1 + of_nat i) = unat fork + 1 + i"
proof -
  have "fork + 1 + of_nat i = (of_nat (unat fork + 1 + i) :: size_t)"
    by simp
  with assms show ?thesis
    by (simp only: unat_of_nat) simp
qed

lemma blocks_unindex_True:
  assumes "blocks_unindex k ht c s = (True, s')"
  shows "chain_index c (blocks_db s') = butlast (chain_index c (blocks_db s))"
    and "chain_index (\<not> c) (blocks_db s') = chain_index (\<not> c) (blocks_db s)"
    and "rows (blocks_db s') = rows (blocks_db s)"
    and "transactions_db s' = transactions_db s" and "faults s' = faults s"
  using assms
  by (auto simp: blocks_unindex_def on_blocks_True block_database_unindex_def Let_def
      chain_index_def set_chain_index_def split: if_splits)

lemma pop_header_success:
  assumes p: "pop_header out0 ht s = (success, out, s1)"
    and top: "Suc (unat ht) = length (candidate_index (blocks_db s))"
  shows "\<exists>r. rows (blocks_db s) (candidate_index (blocks_db s) ! unat ht) = Some r \<and>
             out = row_header r" (is ?A)
    and "candidate_index (blocks_db s1) = butlast (candidate_index (blocks_db s))" (is ?B)
    and "rows (blocks_db s1) = rows (blocks_db s)" (is ?C)
proof -
  let ?idx = "candidate_index (blocks_db s)"
  from top have ci: "Suc (unat ht) = length (chain_index True (blocks_db s))"
    by (simp add: chain_index_def)
  have v: "verify_top (blocks_db s) ht True = success"
    using length_is_top [OF ci] by (simp add: verify_top_def)
  from top have lt: "unat ht < length (chain_index True (blocks_db s))"
    by (simp add: chain_index_def)
  obtain r where r: "rows (blocks_db s) (?idx ! unat ht) = Some r"
    and g: "block_database_get ht True (blocks_db s) = Some (?idx ! unat ht, r)"
    using p v lt
    by (auto simp: pop_header_def block_database_get_def block_database_get_hash_def
        chain_index_def split: option.splits)
  from p v g have nf: "\<not> faulty s"
    by (auto simp: pop_header_def begin_write_def split: if_splits)
  obtain ok s2 where u: "uncandidate_links (row_links r) (snd (begin_write s)) = (ok, s2)"
    by (cases "uncandidate_links (row_links r) (snd (begin_write s))")
  obtain un s3 where x: "blocks_unindex (?idx ! unat ht) ht True s2 = (un, s3)"
    by (cases "blocks_unindex (?idx ! unat ht) ht True s2")
  from p have ok: ok and un: un
      and res: "out = row_header r" "s1 = snd (end_write (record_call Blocks_commit s3))"
    by (simp_all add: pop_header_unfold [OF v g nf] u x split: if_splits)
  from uncandidate_links_frame [OF u] have s2: "blocks_db s2 = blocks_db s"
    by simp
  from x un blocks_unindex_True [of "?idx ! unat ht" ht True s2 s3]
  have s3: "candidate_index (blocks_db s3) = butlast ?idx" "rows (blocks_db s3) = rows (blocks_db s)"
    by (simp_all add: chain_index_def s2)
  from r res show ?A
    by simp
  from res s3 show ?B and ?C
    by simp_all
qed

lemma pop_headers_from_result:
  assumes "pop_headers_from ht fork acc s = (True, out, s')"
    and "Suc (unat ht) = length (candidate_index (blocks_db s))"
    and "fork \<le> ht"
  shows "\<exists>popped. out = popped @ acc \<and> length popped = unat ht - unat fork \<and>
           (\<forall>i<length popped.
              \<exists>r. rows (blocks_db s) (candidate_index (blocks_db s) ! (Suc (unat fork) + i)) = Some r \<and>
                  popped ! i = row_header r)"
  using assms
proof (induction n \<equiv> "unat ht - unat fork" arbitrary: ht acc s)
  case 0
  then have "\<not> fork < ht"
    by (simp add: word_less_nat_alt)
  with "0.prems"(1) have "out = acc"
    by (simp add: pop_headers_from.simps [of ht fork acc s])
  with 0 show ?case
    by simp
next
  case (Suc n)
  let ?idx = "candidate_index (blocks_db s)"
  from Suc.hyps(2) have lt: "fork < ht"
    by (simp add: word_less_nat_alt)
  note w = loop_step [OF lt]
  obtain ec nxt s1 where p: "pop_header default_header ht s = (ec, nxt, s1)"
    by (cases "pop_header default_header ht s")
  from Suc.prems(1) lt p have ec: "ec = success"
    and rest: "pop_headers_from (ht - 1) fork (nxt # acc) s1 = (True, out, s')"
    by (simp_all add: pop_headers_from.simps [of ht fork acc s] split: if_splits)
  note ps = pop_header_success [OF p [unfolded ec] Suc.prems(2)]
  from ps(1) obtain r where r: "rows (blocks_db s) (?idx ! unat ht) = Some r" "nxt = row_header r"
    by blast
  have n: "n = unat (ht - 1) - unat fork"
    using Suc.hyps(2) w by arith
  have len: "Suc (unat (ht - 1)) = length (candidate_index (blocks_db s1))"
    using Suc.prems(2) w ps(2) by simp
  from Suc.hyps(1) [OF n rest len w(3)] obtain popped where
    popped: "out = popped @ nxt # acc" "length popped = unat (ht - 1) - unat fork"
      "\<forall>i<length popped.
         \<exists>r. rows (blocks_db s1) (candidate_index (blocks_db s1) ! (Suc (unat fork) + i)) = Some r \<and>
             popped ! i = row_header r"
    by blast
  have lp: "length popped = n"
    using popped(2) n by simp
  have ht: "unat ht = Suc (unat fork) + n"
    using Suc.hyps(2) by arith
  have "\<exists>r. rows (blocks_db s) (?idx ! (Suc (unat fork) + i)) = Some r \<and>
             (popped @ [nxt]) ! i = row_header r" if i: "i < length (popped @ [nxt])" for i
  proof (cases "i < length popped")
    case True
    with popped(3) obtain r' where
      r': "rows (blocks_db s1) (candidate_index (blocks_db s1) ! (Suc (unat fork) + i)) = Some r'"
        "popped ! i = row_header r'"
      by blast
    from True lp ht Suc.prems(2) have "Suc (unat fork) + i < length (butlast ?idx)"
      by simp
    then have "butlast ?idx ! (Suc (unat fork) + i) = ?idx ! (Suc (unat fork) + i)"
      by (rule nth_butlast)
    with r' ps True show ?thesis
      by (simp add: nth_append)
  next
    case False
    with i lp have "i = n"
      by simp
    with r ht lp show ?thesis
      by (simp add: nth_append)
  qed
  then have "\<forall>i<length (popped @ [nxt]).
      \<exists>r. rows (blocks_db s) (?idx ! (Suc (unat fork) + i)) = Some r \<and>
          (popped @ [nxt]) ! i = row_header r"
    by blast
  moreover have "out = (popped @ [nxt]) @ acc"
    using popped(1) by simp
  moreover have "length (popped @ [nxt]) = unat ht - unat fork"
    using lp ht by simp
  ultimately show ?case
    by blast
qed

lemma pop_block_success:
  assumes p: "pop_block out0 ht s = Some (success, out, s1)"
    and top: "Suc (unat ht) = length (confirmed_index (blocks_db s))"
  shows "\<exists>r ts. rows (blocks_db s) (confirmed_index (blocks_db s) ! unat ht) = Some r \<and>
             hydrate (transactions_db s) (row_links r) = Some ts \<and>
             out = \<lparr>block_header = row_header r, transactions = ts\<rparr>" (is ?A)
    and "confirmed_index (blocks_db s1) = butlast (confirmed_index (blocks_db s))" (is ?B)
    and "rows (blocks_db s1) = rows (blocks_db s)" (is ?C)
    and "map row_tx_hash (tx_rows (transactions_db s1)) =
         map row_tx_hash (tx_rows (transactions_db s))" (is ?D)
proof -
  let ?idx = "confirmed_index (blocks_db s)"
  from top have ci: "Suc (unat ht) = length (chain_index False (blocks_db s))"
    by (simp add: chain_index_def)
  have v: "verify_top (blocks_db s) ht False = success"
    using length_is_top [OF ci] by (simp add: verify_top_def)
  from top have lt: "unat ht < length (chain_index False (blocks_db s))"
    by (simp add: chain_index_def)
  obtain r where r: "rows (blocks_db s) (?idx ! unat ht) = Some r"
    and g: "block_database_get ht False (blocks_db s) = Some (?idx ! unat ht, r)"
    using p v lt
    by (auto simp: pop_block_def block_database_get_def block_database_get_hash_def
        chain_index_def split: option.splits)
  obtain ts where ts: "hydrate (transactions_db s) (row_links r) = Some ts"
    using p v g by (auto simp: pop_block_def to_transactions_def split: option.splits)
  from p v g ts have nf: "\<not> faulty s"
    by (auto simp: pop_block_def to_transactions_def Let_def begin_write_def split: if_splits)
  obtain ok s2 where u: "unconfirm_transactions ts (snd (begin_write s)) = (ok, s2)"
    by (cases "unconfirm_transactions ts (snd (begin_write s))")
  obtain un s3 where x: "blocks_unindex (?idx ! unat ht) ht False s2 = (un, s3)"
    by (cases "blocks_unindex (?idx ! unat ht) ht False s2")
  from p have ok: ok and un: un
      and res: "out = \<lparr>block_header = row_header r, transactions = ts\<rparr>"
        "s1 = snd (end_write (commit s3))"
    by (simp_all add: pop_block_unfold [OF v g ts nf] u x split: if_splits)
  from unconfirm_transactions_frame [OF u] have s2: "blocks_db s2 = blocks_db s"
      "map row_tx_hash (tx_rows (transactions_db s2)) =
       map row_tx_hash (tx_rows (transactions_db s))"
    by simp_all
  from x un blocks_unindex_True [of "?idx ! unat ht" ht False s2 s3]
  have s3: "confirmed_index (blocks_db s3) = butlast ?idx" "rows (blocks_db s3) = rows (blocks_db s)"
      "transactions_db s3 = transactions_db s2"
    by (simp_all add: chain_index_def s2)
  from r ts res show ?A
    by simp
  from res s3 s2 show ?B and ?C and ?D
    by simp_all
qed

lemma pop_blocks_from_result:
  assumes "pop_blocks_from ht fork acc s = Some (True, out, s')"
    and "Suc (unat ht) = length (confirmed_index (blocks_db s))"
    and "fork \<le> ht"
  shows "\<exists>popped. out = popped @ acc \<and> length popped = unat ht - unat fork \<and>
           (\<forall>i<length popped.
              \<exists>r ts. rows (blocks_db s) (confirmed_index (blocks_db s) ! (Suc (unat fork) + i)) = Some r \<and>
                  hydrate (transactions_db s) (row_links r) = Some ts \<and>
                  popped ! i = \<lparr>block_header = row_header r, transactions = ts\<rparr>)"
  using assms
proof (induction n \<equiv> "unat ht - unat fork" arbitrary: ht acc s)
  case 0
  then have "\<not> fork < ht"
    by (simp add: word_less_nat_alt)
  with "0.prems"(1) have "out = acc"
    by (simp add: pop_blocks_from.simps [of ht fork acc s])
  with 0 show ?case
    by simp
next
  case (Suc n)
  let ?idx = "confirmed_index (blocks_db s)"
  from Suc.hyps(2) have lt: "fork < ht"
    by (simp add: word_less_nat_alt)
  note w = loop_step [OF lt]
  from Suc.prems(1) lt obtain ec nxt s1 where
    p: "pop_block default_block ht s = Some (ec, nxt, s1)"
    by (cases "pop_block default_block ht s")
       (auto simp: pop_blocks_from.simps [of ht fork acc s])
  from Suc.prems(1) lt p have ec: "ec = success"
    and rest: "pop_blocks_from (ht - 1) fork (nxt # acc) s1 = Some (True, out, s')"
    by (simp_all add: pop_blocks_from.simps [of ht fork acc s] split: if_splits)
  note ps = pop_block_success [OF p [unfolded ec] Suc.prems(2)]
  from ps(1) obtain r ts where r: "rows (blocks_db s) (?idx ! unat ht) = Some r"
      "hydrate (transactions_db s) (row_links r) = Some ts"
      "nxt = \<lparr>block_header = row_header r, transactions = ts\<rparr>"
    by blast
  have n: "n = unat (ht - 1) - unat fork"
    using Suc.hyps(2) w by arith
  have len: "Suc (unat (ht - 1)) = length (confirmed_index (blocks_db s1))"
    using Suc.prems(2) w ps(2) by simp
  from Suc.hyps(1) [OF n rest len w(3)] obtain popped where
    popped: "out = popped @ nxt # acc" "length popped = unat (ht - 1) - unat fork"
      "\<forall>i<length popped.
         \<exists>r ts. rows (blocks_db s1) (confirmed_index (blocks_db s1) ! (Suc (unat fork) + i)) = Some r \<and>
             hydrate (transactions_db s1) (row_links r) = Some ts \<and>
             popped ! i = \<lparr>block_header = row_header r, transactions = ts\<rparr>"
    by blast
  have lp: "length popped = n"
    using popped(2) n by simp
  have ht: "unat ht = Suc (unat fork) + n"
    using Suc.hyps(2) by arith
  note hy = hydrate_depends_on_hashes [OF ps(4)]
  have "\<exists>r ts. rows (blocks_db s) (?idx ! (Suc (unat fork) + i)) = Some r \<and>
             hydrate (transactions_db s) (row_links r) = Some ts \<and>
             (popped @ [nxt]) ! i = \<lparr>block_header = row_header r, transactions = ts\<rparr>"
    if i: "i < length (popped @ [nxt])" for i
  proof (cases "i < length popped")
    case True
    with popped(3) obtain r' ts' where
      r': "rows (blocks_db s1) (confirmed_index (blocks_db s1) ! (Suc (unat fork) + i)) = Some r'"
        "hydrate (transactions_db s1) (row_links r') = Some ts'"
        "popped ! i = \<lparr>block_header = row_header r', transactions = ts'\<rparr>"
      by blast
    from True lp ht Suc.prems(2) have "Suc (unat fork) + i < length (butlast ?idx)"
      by simp
    then have "butlast ?idx ! (Suc (unat fork) + i) = ?idx ! (Suc (unat fork) + i)"
      by (rule nth_butlast)
    with r' ps hy True show ?thesis
      by (simp add: nth_append)
  next
    case False
    with i lp have "i = n"
      by simp
    with r ht lp show ?thesis
      by (simp add: nth_append)
  qed
  then have "\<forall>i<length (popped @ [nxt]).
      \<exists>r ts. rows (blocks_db s) (?idx ! (Suc (unat fork) + i)) = Some r \<and>
          hydrate (transactions_db s) (row_links r) = Some ts \<and>
          (popped @ [nxt]) ! i = \<lparr>block_header = row_header r, transactions = ts\<rparr>"
    by blast
  moreover have "out = (popped @ [nxt]) @ acc"
    using popped(1) by simp
  moreover have "length (popped @ [nxt]) = unat ht - unat fork"
    using lp ht by simp
  ultimately show ?case
    by blast
qed

lemma verified_fork_below_top:
  assumes v: "verify db fork_point c = success"
    and t: "Suc (unat t) = length (chain_index c db)"
  shows "height fork_point \<le> t"
proof -
  from v have "unat (height fork_point) < length (chain_index c db)"
    by (auto simp: verify_def block_database_get_def split: option.splits if_splits)
  with t show ?thesis
    by (simp add: word_le_nat_alt)
qed

lemma get_above_fork:
  assumes r: "rows db (chain_index c db ! (Suc (unat fork) + i)) = Some r"
    and i: "unat (fork :: size_t) + 1 + i \<le> unat (t :: size_t)"
    and t: "Suc (unat t) = length (chain_index c db)"
  shows "block_database_get (fork + 1 + of_nat i) c db =
           Some (chain_index c db ! (Suc (unat fork) + i), r)"
proof -
  have "unat t < 2 ^ 64"
    using unsigned_less [of t] by simp
  with i have "unat fork + 1 + i < 2 ^ 64"
    by arith
  then have u: "unat (fork + 1 + of_nat i) = Suc (unat fork) + i"
    by (simp add: height_above_fork)
  from i t have "Suc (unat fork) + i < length (chain_index c db)"
    by arith
  with r show ?thesis
    by (simp add: block_database_get_def block_database_get_hash_def u)
qed

lemma pop_above_headers_result:
  assumes p: "pop_above_headers outgoing fork_point s = (True, out, s')"
    and len: "length (candidate_index (blocks_db s)) \<le> 2 ^ 64"
  shows "\<exists>t. block_database_top True (blocks_db s) = Some t \<and> height fork_point \<le> t \<and>
            length out = unat t - unat (height fork_point) \<and>
            (\<forall>i<length out.
               \<exists>k r. block_database_get (height fork_point + 1 + of_nat i) True (blocks_db s) =
                        Some (k, r) \<and> out ! i = row_header r)"
proof -
  let ?fork = "height fork_point"
  from p have v: "verify (blocks_db s) fork_point True = success"
    by (auto simp: pop_above_headers_def split: if_splits)
  with p obtain t where t: "block_database_top True (blocks_db s) = Some t"
    by (auto simp: pop_above_headers_def split: option.splits)
  from len have len': "length (chain_index True (blocks_db s)) \<le> 2 ^ 64"
    by (simp add: chain_index_def)
  note tl = top_is_length [OF t len']
  note le = verified_fork_below_top [OF v tl]
  show ?thesis
  proof (cases "t - ?fork = 0")
    case True
    with p v t have "out = []"
      by (simp add: pop_above_headers_def)
    with True t le show ?thesis
      by simp
  next
    case False
    with p v t have l: "pop_headers_from t ?fork [] s = (True, out, s')"
      by (simp add: pop_above_headers_def)
    from tl have tl': "Suc (unat t) = length (candidate_index (blocks_db s))"
      by (simp add: chain_index_def)
    from pop_headers_from_result [OF l tl' le]
    have n: "length out = unat t - unat ?fork"
      and e: "\<forall>i<length out.
              \<exists>r. rows (blocks_db s) (chain_index True (blocks_db s) ! (Suc (unat ?fork) + i)) = Some r \<and>
                  out ! i = row_header r"
      by (auto simp: chain_index_def)
    have "\<exists>k r. block_database_get (?fork + 1 + of_nat i) True (blocks_db s) = Some (k, r) \<and>
               out ! i = row_header r" if i: "i < length out" for i
    proof -
      from e i obtain r where
        r: "rows (blocks_db s) (chain_index True (blocks_db s) ! (Suc (unat ?fork) + i)) = Some r"
          "out ! i = row_header r"
        by blast
      from i n have "unat ?fork + 1 + i \<le> unat t"
        by arith
      from get_above_fork [OF r(1) this tl] r(2) show ?thesis
        by blast
    qed
    with t le n show ?thesis
      by blast
  qed
qed

lemma pop_above_blocks_result:
  assumes p: "pop_above_blocks outgoing fork_point s = Some (True, out, s')"
    and len: "length (confirmed_index (blocks_db s)) \<le> 2 ^ 64"
  shows "\<exists>t. block_database_top False (blocks_db s) = Some t \<and> height fork_point \<le> t \<and>
            length out = unat t - unat (height fork_point) \<and>
            (\<forall>i<length out.
               \<exists>k r ts. block_database_get (height fork_point + 1 + of_nat i) False (blocks_db s) =
                          Some (k, r) \<and>
                        to_transactions s (k, r) = Some ts \<and>
                        out ! i = \<lparr>block_header = row_header r, transactions = ts\<rparr>)"
proof -
  let ?fork = "height fork_point"
  from p have v: "verify (blocks_db s) fork_point False = success"
    by (auto simp: pop_above_blocks_def split: if_splits)
  with p obtain t where t: "block_database_top False (blocks_db s) = Some t"
    by (auto simp: pop_above_blocks_def split: option.splits)
  from len have len': "length (chain_index False (blocks_db s)) \<le> 2 ^ 64"
    by (simp add: chain_index_def)
  note tl = top_is_length [OF t len']
  note le = verified_fork_below_top [OF v tl]
  show ?thesis
  proof (cases "t - ?fork = 0")
    case True
    with p v t have "out = []"
      by (simp add: pop_above_blocks_def)
    with True t le show ?thesis
      by simp
  next
    case False
    with p v t have l: "pop_blocks_from t ?fork [] s = Some (True, out, s')"
      by (simp add: pop_above_blocks_def)
    from tl have tl': "Suc (unat t) = length (confirmed_index (blocks_db s))"
      by (simp add: chain_index_def)
    from pop_blocks_from_result [OF l tl' le]
    have n: "length out = unat t - unat ?fork"
      and e: "\<forall>i<length out.
              \<exists>r ts. rows (blocks_db s) (chain_index False (blocks_db s) ! (Suc (unat ?fork) + i)) = Some r \<and>
                  hydrate (transactions_db s) (row_links r) = Some ts \<and>
                  out ! i = \<lparr>block_header = row_header r, transactions = ts\<rparr>"
      by (auto simp: chain_index_def)
    have "\<exists>k r ts. block_database_get (?fork + 1 + of_nat i) False (blocks_db s) = Some (k, r) \<and>
               to_transactions s (k, r) = Some ts \<and>
               out ! i = \<lparr>block_header = row_header r, transactions = ts\<rparr>"
      if i: "i < length out" for i
    proof -
      from e i obtain r ts where
        r: "rows (blocks_db s) (chain_index False (blocks_db s) ! (Suc (unat ?fork) + i)) = Some r"
          "hydrate (transactions_db s) (row_links r) = Some ts"
          "out ! i = \<lparr>block_header = row_header r, transactions = ts\<rparr>"
        by blast
      from i n have "unat ?fork + 1 + i \<le> unat t"
        by arith
      from get_above_fork [OF r(1) this tl] r(2,3) show ?thesis
        by (auto simp: to_transactions_def)
    qed
    with t le n show ?thesis
      by blast
  qed
qed

lemma pop_above_at_top:
  "verify (blocks_db s) fork_point True = success \<Longrightarrow>
   block_database_top True (blocks_db s) = Some (height fork_point) \<Longrightarrow>
     pop_above_headers outgoing fork_point s = (True, [], s)"
  "verify (blocks_db s) fork_point False = success \<Longrightarrow>
   block_database_top False (blocks_db s) = Some (height fork_point) \<Longrightarrow>
     pop_above_blocks outgoing_blocks fork_point s = Some (True, [], s)"
  by (simp_all add: pop_above_headers_def pop_above_blocks_def)

lemma sample_pop_above_headers:
  "fst (pop_above_headers [sample_header 7 7] \<lparr>checkpoint_hash = 101, height = 1\<rparr> sample_store)"
  "fst (snd (pop_above_headers [sample_header 7 7] \<lparr>checkpoint_hash = 101, height = 1\<rparr>
     sample_store)) = [sample_header 102 101, sample_header 103 102]"
  by (simp_all add: pop_above_headers_def pop_headers_from.simps [of 3] pop_headers_from.simps [of 2]
      pop_headers_from.simps [of 1] pop_header_def leaf_defs sample_defs)

lemma sample_pop_above_blocks:
  "\<exists>s'. pop_above_blocks [sample_block] \<lparr>checkpoint_hash = 100, height = 0\<rparr> sample_store =
     Some (True,
           [\<lparr>block_header = sample_header 101 100,
             transactions = [\<lparr>tx_hash = 301, tx_metadata = \<lparr>link = 1, existed = True\<rparr>\<rparr>]\<rparr>,
            \<lparr>block_header = sample_header 102 101,
             transactions = [\<lparr>tx_hash = 302, tx_metadata = \<lparr>link = 2, existed = True\<rparr>\<rparr>,
                             \<lparr>tx_hash = 303, tx_metadata = \<lparr>link = 3, existed = True\<rparr>\<rparr>]\<rparr>],
           s')"
  by (simp add: pop_above_blocks_def pop_blocks_from.simps [of 2] pop_blocks_from.simps [of 1]
      pop_blocks_from.simps [of 0] pop_block_def to_transactions_def leaf_defs sample_defs)

text \<open>
  C4. Let \<^verbatim>\<open>pop_above\<close> succeed, at header or at block granularity, on an index of at most
  \<open>2^64\<close> entries with top \<open>t\<close>, for a fork point at height \<open>f\<close>. Then \<open>f \<le> t\<close>, the
  outgoing list has exactly \<open>t - f\<close> elements, and its element \<open>i\<close> (counted from 0) is
  what the index held at height \<open>f + 1 + i\<close> before the call: that header, or the block made
  of that header and its hydrated transactions. So the list is in ascending height order.
  When the verified fork point is the top, \<^verbatim>\<open>pop_above\<close> returns true with an empty list and
  makes no call.
\<close>

theorem pop_above_ascending:
  "(pop_above_headers outgoing fork_point s = (True, out, s') \<and>
    length (candidate_index (blocks_db s)) \<le> 2 ^ 64 \<longrightarrow>
      (\<exists>t. block_database_top True (blocks_db s) = Some t \<and> height fork_point \<le> t \<and>
           length out = unat t - unat (height fork_point) \<and>
           (\<forall>i<length out.
              \<exists>k r. block_database_get (height fork_point + 1 + of_nat i) True (blocks_db s) =
                       Some (k, r) \<and> out ! i = row_header r))) \<and>
   (verify (blocks_db s) fork_point True = success \<and>
    block_database_top True (blocks_db s) = Some (height fork_point) \<longrightarrow>
      pop_above_headers outgoing fork_point s = (True, [], s)) \<and>
   (pop_above_blocks outgoing_blocks fork_point s = Some (True, out_blocks, s'') \<and>
    length (confirmed_index (blocks_db s)) \<le> 2 ^ 64 \<longrightarrow>
      (\<exists>t. block_database_top False (blocks_db s) = Some t \<and> height fork_point \<le> t \<and>
           length out_blocks = unat t - unat (height fork_point) \<and>
           (\<forall>i<length out_blocks.
              \<exists>k r ts. block_database_get (height fork_point + 1 + of_nat i) False (blocks_db s) =
                         Some (k, r) \<and>
                       to_transactions s (k, r) = Some ts \<and>
                       out_blocks ! i = \<lparr>block_header = row_header r, transactions = ts\<rparr>))) \<and>
   (verify (blocks_db s) fork_point False = success \<and>
    block_database_top False (blocks_db s) = Some (height fork_point) \<longrightarrow>
      pop_above_blocks outgoing_blocks fork_point s = Some (True, [], s))"
  using pop_above_headers_result [of outgoing fork_point s out s']
    pop_above_blocks_result [of outgoing_blocks fork_point s out_blocks s'']
    pop_above_at_top [of s fork_point]
  by blast

theorem pop_above_ascending_witness:
  "fst (snd (pop_above_headers [sample_header 7 7] \<lparr>checkpoint_hash = 101, height = 1\<rparr>
     sample_store)) = [sample_header 102 101, sample_header 103 102] \<and>
   block_database_top True (blocks_db sample_store) = Some 3 \<and>
   block_database_get 2 True (blocks_db sample_store) = Some (102, sample_row 102 101 2 [2, 3]) \<and>
   block_database_get 3 True (blocks_db sample_store) = Some (103, sample_row 103 102 3 []) \<and>
   length (fst (snd (pop_above_headers [sample_header 7 7]
     \<lparr>checkpoint_hash = 101, height = 1\<rparr> sample_store))) = 3 - 1 \<and>
   pop_above_headers [sample_header 7 7] \<lparr>checkpoint_hash = 103, height = 3\<rparr> sample_store =
     (True, [], sample_store) \<and>
   (\<exists>out s'. pop_above_blocks [sample_block] \<lparr>checkpoint_hash = 100, height = 0\<rparr> sample_store =
       Some (True, out, s') \<and>
      block_database_top False (blocks_db sample_store) = Some 2 \<and> length out = 2 - 0 \<and>
      map (\<lambda>b. hash (block_header b)) out = [101, 102]) \<and>
   pop_above_blocks [sample_block] \<lparr>checkpoint_hash = 102, height = 2\<rparr> sample_store =
     Some (True, [], sample_store)"
proof -
  let ?fp = "\<lparr>checkpoint_hash = 101, height = 1\<rparr>"
  let ?p = "pop_above_headers [sample_header 7 7] ?fp sample_store"
  have e: "?p = (True, fst (snd ?p), snd (snd ?p))"
    using sample_pop_above_headers(1) by (simp add: prod_eq_iff)
  have l: "length (candidate_index (blocks_db sample_store)) \<le> 2 ^ 64"
    "length (confirmed_index (blocks_db sample_store)) \<le> 2 ^ 64"
    by (simp_all add: sample_defs)
  have t: "block_database_top True (blocks_db sample_store) = Some 3"
    "block_database_get 2 True (blocks_db sample_store) = Some (102, sample_row 102 101 2 [2, 3])"
    "block_database_get 3 True (blocks_db sample_store) = Some (103, sample_row 103 102 3 [])"
    "verify (blocks_db sample_store) \<lparr>checkpoint_hash = 103, height = 3\<rparr> True = success"
    "block_database_top False (blocks_db sample_store) = Some 2"
    "verify (blocks_db sample_store) \<lparr>checkpoint_hash = 102, height = 2\<rparr> False = success"
    by (simp_all add: leaf_defs sample_defs)
  from pop_above_ascending
    [of "[sample_header 7 7]" ?fp sample_store "fst (snd ?p)" "snd (snd ?p)"] e l(1) t(1)
  have n: "length (fst (snd ?p)) = 3 - 1"
    by auto
  from pop_above_ascending
    [of "[sample_header 7 7]" "\<lparr>checkpoint_hash = 103, height = 3\<rparr>" sample_store] t(1,4)
  have z: "pop_above_headers [sample_header 7 7] \<lparr>checkpoint_hash = 103, height = 3\<rparr>
      sample_store = (True, [], sample_store)"
    by simp
  from sample_pop_above_blocks obtain s' where
    b: "pop_above_blocks [sample_block] \<lparr>checkpoint_hash = 100, height = 0\<rparr> sample_store =
     Some (True,
           [\<lparr>block_header = sample_header 101 100,
             transactions = [\<lparr>tx_hash = 301, tx_metadata = \<lparr>link = 1, existed = True\<rparr>\<rparr>]\<rparr>,
            \<lparr>block_header = sample_header 102 101,
             transactions = [\<lparr>tx_hash = 302, tx_metadata = \<lparr>link = 2, existed = True\<rparr>\<rparr>,
                             \<lparr>tx_hash = 303, tx_metadata = \<lparr>link = 3, existed = True\<rparr>\<rparr>]\<rparr>],
           s')"
    by blast
  from pop_above_ascending
    [of _ "\<lparr>checkpoint_hash = 100, height = 0\<rparr>" sample_store _ _ "[sample_block]" _ s'] b l(2) t(5)
  have k: "length
      [\<lparr>block_header = sample_header 101 100,
        transactions = [\<lparr>tx_hash = 301, tx_metadata = \<lparr>link = 1, existed = True\<rparr>\<rparr>]\<rparr>,
       \<lparr>block_header = sample_header 102 101,
        transactions = [\<lparr>tx_hash = 302, tx_metadata = \<lparr>link = 2, existed = True\<rparr>\<rparr>,
                        \<lparr>tx_hash = 303, tx_metadata = \<lparr>link = 3, existed = True\<rparr>\<rparr>]\<rparr>] =
      unat (2 :: size_t) - unat (0 :: size_t)"
    by auto
  have m: "\<exists>out s'. pop_above_blocks [sample_block] \<lparr>checkpoint_hash = 100, height = 0\<rparr>
       sample_store = Some (True, out, s') \<and>
      block_database_top False (blocks_db sample_store) = Some 2 \<and> length out = 2 - 0 \<and>
      map (\<lambda>b. hash (block_header b)) out = [101, 102]"
    using b t(5) k by (simp add: sample_header_def)
  from pop_above_ascending
    [of _ "\<lparr>checkpoint_hash = 102, height = 2\<rparr>" sample_store _ _ "[sample_block]"] t(5,6)
  have y: "pop_above_blocks [sample_block] \<lparr>checkpoint_hash = 102, height = 2\<rparr>
      sample_store = Some (True, [], sample_store)"
    by simp
  from sample_pop_above_headers(2) t n z m y show ?thesis
    by simp
qed

section \<open>reorganize: the fork point\<close>

lemma verify_above_top:
  assumes "length (chain_index c db) \<le> 2 ^ 64"
    and "\<forall>t. block_database_top c db = Some t \<longrightarrow> t < height fork_point"
  shows "verify db fork_point c = invalid_fork_point"
proof (cases "chain_index c db = []")
  case True
  then show ?thesis
    by (simp add: verify_def block_database_get_def)
next
  case False
  let ?n = "length (chain_index c db)"
  from False have pos: "0 < ?n"
    by simp
  from False assms(2) have lt: "(of_nat (?n - 1) :: size_t) < height fork_point"
    by (simp add: block_database_top_def)
  from pos assms(1) have "?n - 1 < 2 ^ 64"
    by arith
  then have "unat (of_nat (?n - 1) :: size_t) = ?n - 1"
    by (simp add: unat_of_nat)
  with lt have "?n - 1 < unat (height fork_point)"
    by (simp add: word_less_nat_alt)
  with pos have "\<not> unat (height fork_point) < ?n"
    by arith
  then show ?thesis
    by (simp add: verify_def block_database_get_def)
qed

lemma reorganize_headers_bad_fork:
  "verify (blocks_db s) fork_point True \<noteq> success \<Longrightarrow>
     \<exists>out. reorganize_headers fork_point incoming outgoing s = (operation_failed, out, s)"
  by (simp add: reorganize_headers_def pop_above_headers_def)

lemma reorganize_blocks_bad_fork:
  "verify (blocks_db s) fork_point False \<noteq> success \<Longrightarrow>
     \<exists>out. reorganize_blocks fork_point incoming outgoing s = Some (operation_failed, out, s)"
  by (simp add: reorganize_blocks_def pop_above_blocks_def)

text \<open>
  C5, as stated, fails: on the genesis store a fork point at height 9 is above the candidate
  top, \<open>verify\<close> answers \<open>invalid_fork_point\<close>, and the header reorganization returns
  \<open>operation_failed\<close>.
\<close>

theorem reorganize_bad_fork_point_code:
  "verify (blocks_db genesis_store) \<lparr>checkpoint_hash = 100, height = 9\<rparr> True = invalid_fork_point \<and>
   reorganize_headers \<lparr>checkpoint_hash = 100, height = 9\<rparr> [] [] genesis_store =
     (operation_failed, [], genesis_store) \<and>
   fst (reorganize_headers \<lparr>checkpoint_hash = 100, height = 9\<rparr> [] [] genesis_store) \<noteq>
     invalid_fork_point"
  by (simp add: reorganize_headers_def pop_above_headers_def leaf_defs sample_defs max_size_t_def)

text \<open>
  C5, amended. When the fork point fails \<open>verify\<close> against the target index (the candidate
  index for headers, the confirmed index for blocks), \<open>reorganize\<close> fails with no pop and no
  push: it makes no call and leaves the state as it was. The code it returns is
  \<open>operation_failed\<close>: \<^verbatim>\<open>pop_above\<close> reports the failed precondition as \<^verbatim>\<open>false\<close>, and
  \<open>reorganize\<close> maps \<^verbatim>\<open>false\<close> to \<open>operation_failed\<close>. In particular \<open>verify\<close> fails,
  with \<open>invalid_fork_point\<close>, whenever the fork point's height exceeds the index top or the
  index is empty.
\<close>

theorem reorganize_bad_fork_point:
  "(verify (blocks_db s) fork_point True \<noteq> success \<longrightarrow>
      (\<exists>out. reorganize_headers fork_point incoming outgoing s = (operation_failed, out, s))) \<and>
   (verify (blocks_db s) fork_point False \<noteq> success \<longrightarrow>
      (\<exists>out. reorganize_blocks fork_point incoming_blocks outgoing_blocks s =
          Some (operation_failed, out, s))) \<and>
   (length (chain_index c (blocks_db s)) \<le> 2 ^ 64 \<and>
    (\<forall>t. block_database_top c (blocks_db s) = Some t \<longrightarrow> t < height fork_point) \<longrightarrow>
      verify (blocks_db s) fork_point c = invalid_fork_point)"
  using reorganize_headers_bad_fork reorganize_blocks_bad_fork verify_above_top by blast

theorem reorganize_bad_fork_point_witness:
  "reorganize_headers \<lparr>checkpoint_hash = 100, height = 9\<rparr> [sample_header 101 100] []
     genesis_store = (operation_failed, [], genesis_store) \<and>
   (\<exists>out. reorganize_blocks \<lparr>checkpoint_hash = 100, height = 9\<rparr> [sample_block] []
     genesis_store = Some (operation_failed, out, genesis_store))"
proof -
  have t: "block_database_top c (blocks_db genesis_store) = Some 0" for c
    by (simp add: leaf_defs sample_defs)
  have l: "length (chain_index c (blocks_db genesis_store)) \<le> 2 ^ 64" for c
    by (simp add: leaf_defs sample_defs)
  have h: "\<forall>t. block_database_top c (blocks_db genesis_store) = Some t \<longrightarrow>
      t < height \<lparr>checkpoint_hash = 100, height = 9\<rparr>" for c
    by (simp add: t)
  have v: "verify (blocks_db genesis_store) \<lparr>checkpoint_hash = 100, height = 9\<rparr> c \<noteq> success" for c
    using reorganize_bad_fork_point
      [of genesis_store "\<lparr>checkpoint_hash = 100, height = 9\<rparr>" "[sample_header 101 100]" "[]"
        "[sample_block]" "[]" c] l [of c] h [of c]
    by simp
  have r: "\<exists>out. reorganize_headers \<lparr>checkpoint_hash = 100, height = 9\<rparr> [sample_header 101 100] []
      genesis_store = (operation_failed, out, genesis_store)"
    using reorganize_bad_fork_point
      [of genesis_store "\<lparr>checkpoint_hash = 100, height = 9\<rparr>" "[sample_header 101 100]" "[]"
        "[sample_block]" "[]" True] v [of True]
    by blast
  have o: "fst (snd (reorganize_headers \<lparr>checkpoint_hash = 100, height = 9\<rparr>
      [sample_header 101 100] [] genesis_store)) = []"
    by (simp add: reorganize_headers_def pop_above_headers_def leaf_defs sample_defs
        max_size_t_def)
  from r o have "reorganize_headers \<lparr>checkpoint_hash = 100, height = 9\<rparr> [sample_header 101 100] []
     genesis_store = (operation_failed, [], genesis_store)"
    by auto
  moreover have "\<exists>out. reorganize_blocks \<lparr>checkpoint_hash = 100, height = 9\<rparr> [sample_block] []
     genesis_store = Some (operation_failed, out, genesis_store)"
    using reorganize_bad_fork_point
      [of genesis_store "\<lparr>checkpoint_hash = 100, height = 9\<rparr>" "[sample_header 101 100]" "[]"
        "[sample_block]" "[]" False] v [of False]
    by blast
  ultimately show ?thesis
    by blast
qed

section \<open>reorganize: the overflow guard\<close>

lemma unat_max_size_t: "unat max_size_t = 18446744073709551615"
  by (simp add: max_size_t_def)

lemma overflow_guard_exact:
  assumes "n \<le> unat max_size_t"
  shows "max_size_t - of_nat n < (h :: size_t) \<longleftrightarrow> unat max_size_t < unat h + n"
proof -
  from assms have n: "unat (of_nat n :: size_t) = n"
    by (simp add: unat_of_nat unat_max_size_t)
  then have "(of_nat n :: size_t) \<le> max_size_t"
    using assms by (simp add: word_le_nat_alt)
  then have "unat (max_size_t - of_nat n) = unat max_size_t - n"
    by (simp add: unat_sub n)
  with assms show ?thesis
    by (simp add: word_less_nat_alt) arith
qed

text \<open>
  C6. \<^verbatim>\<open>incoming.size()\<close> is a \<^verbatim>\<open>size_t\<close>, so the list has at most \<open>max_size_t\<close>
  elements. Then the guard the program computes in \<^verbatim>\<open>size_t\<close> arithmetic,
  \<^verbatim>\<open>fork_point.height() > max_size_t - incoming->size()\<close>, holds exactly when the height
  plus the size exceeds \<open>max_size_t\<close>. When it holds, \<open>reorganize\<close> (for headers and for
  blocks) returns \<open>operation_failed\<close> with the state and the outgoing list untouched: no call
  was made. When it does not hold, \<open>reorganize\<close> is what \<^verbatim>\<open>pop_above\<close> followed, if it
  returned true, by \<^verbatim>\<open>push_all\<close> does.
\<close>

theorem reorganize_overflow_guard:
  assumes "length incoming \<le> unat max_size_t"
    and "length incoming_blocks \<le> unat max_size_t"
  shows
    "(max_size_t - of_nat (length incoming) < height fork_point \<longleftrightarrow>
        unat max_size_t < unat (height fork_point) + length incoming) \<and>
     (unat max_size_t < unat (height fork_point) + length incoming \<longrightarrow>
        reorganize_headers fork_point incoming outgoing s = (operation_failed, outgoing, s)) \<and>
     (unat (height fork_point) + length incoming \<le> unat max_size_t \<longrightarrow>
        reorganize_headers fork_point incoming outgoing s =
          (case pop_above_headers outgoing fork_point s of (popped, outgoing', s1) \<Rightarrow>
             if \<not> popped then (operation_failed, outgoing', s1)
             else (case push_all_headers incoming fork_point s1 of (pushed, s2) \<Rightarrow>
                     (if pushed then success else operation_failed, outgoing', s2)))) \<and>
     (unat max_size_t < unat (height fork_point) + length incoming_blocks \<longrightarrow>
        reorganize_blocks fork_point incoming_blocks outgoing_blocks s =
          Some (operation_failed, outgoing_blocks, s)) \<and>
     (unat (height fork_point) + length incoming_blocks \<le> unat max_size_t \<longrightarrow>
        reorganize_blocks fork_point incoming_blocks outgoing_blocks s =
          (case pop_above_blocks outgoing_blocks fork_point s of
             None \<Rightarrow> None
           | Some (popped, outgoing', s1) \<Rightarrow>
               if \<not> popped then Some (operation_failed, outgoing', s1)
               else (case push_all_blocks incoming_blocks fork_point s1 of
                       None \<Rightarrow> None
                     | Some (pushed, s2) \<Rightarrow>
                         Some (if pushed then success else operation_failed, outgoing', s2))))"
  using overflow_guard_exact [OF assms(1), of "height fork_point"]
    overflow_guard_exact [OF assms(2), of "height fork_point"]
  by (simp add: reorganize_headers_def reorganize_blocks_def)

theorem reorganize_overflow_guard_witness:
  "reorganize_headers \<lparr>checkpoint_hash = 100, height = max_size_t\<rparr> [sample_header 101 100]
     [sample_header 7 7] genesis_store = (operation_failed, [sample_header 7 7], genesis_store) \<and>
   reorganize_blocks \<lparr>checkpoint_hash = 100, height = max_size_t\<rparr> [sample_block]
     [sample_block] genesis_store = Some (operation_failed, [sample_block], genesis_store) \<and>
   reorganize_headers \<lparr>checkpoint_hash = 100, height = 0\<rparr> [] [sample_header 7 7]
     genesis_store = (success, [], genesis_store)"
proof -
  have a: "length [sample_header 101 100] \<le> unat max_size_t"
       "length [sample_block] \<le> unat max_size_t"
       "length ([] :: header list) \<le> unat max_size_t"
    by (simp_all add: unat_max_size_t)
  have p: "pop_above_headers [sample_header 7 7] \<lparr>checkpoint_hash = 100, height = 0\<rparr>
      genesis_store = (True, [], genesis_store)"
    by (simp add: pop_above_headers_def leaf_defs sample_defs)
  have q: "push_all_headers [] \<lparr>checkpoint_hash = 100, height = 0\<rparr> genesis_store =
      (True, genesis_store)"
    by (simp add: push_all_headers_def)
  from reorganize_overflow_guard [OF a(1) a(2), of "\<lparr>checkpoint_hash = 100, height = max_size_t\<rparr>"
      "[sample_header 7 7]" genesis_store "[sample_block]"]
    reorganize_overflow_guard [OF a(3) a(2), of "\<lparr>checkpoint_hash = 100, height = 0\<rparr>"
      "[sample_header 7 7]" genesis_store "[sample_block]"] p q
  show ?thesis
    by (simp add: unat_max_size_t)
qed

section \<open>close\<close>

lemma close_when_closed: "closed s \<Longrightarrow> close s = (True, s)"
  by (simp add: close_def)

lemma close_sets_flag: "closed (snd (close s))"
  by (simp add: close_def on_files_def store_close_def case_prod_beta)

lemma close_flag_first:
  "\<not> closed s \<Longrightarrow>
     \<exists>es. history (snd (close s)) = history s @ Closed_write True # es \<and>
          set es \<subseteq> {Blocks_close, Transactions_close, Addresses_close, Store_close}"
  by (simp add: close_def on_files_def store_close_def case_prod_beta)

lemma close_times_closed: "closed s \<Longrightarrow> close_times n s = (replicate n True, s)"
  by (induction n) (simp_all add: close_when_closed)

lemma close_first:
  assumes "\<not> closed s" and "\<forall>k<5. \<not> faults s (length (history s) + k)"
  shows "close s =
     (True, s\<lparr>closed := True,
             history := history s @ [Closed_write True, Blocks_close, Transactions_close] @
               (if index_addresses s then [Addresses_close] else []) @ [Store_close]\<rparr>)"
proof -
  from assms(2) have f: "k < 5 \<Longrightarrow> \<not> faults s (length (history s) + k)" for k
    by blast
  from f [of 1] f [of 2] f [of 3] f [of 4] have
    "\<not> faults s (Suc (length (history s)))"
    "\<not> faults s (Suc (Suc (length (history s))))"
    "\<not> faults s (Suc (Suc (Suc (length (history s)))))"
    "\<not> faults s (Suc (Suc (Suc (Suc (length (history s))))))"
    by (simp_all add: numeral_eq_Suc)
  with assms(1) show ?thesis
    by (simp add: close_def on_files_def store_close_def faulty_def record_call_def)
qed

lemma open_first:
  assumes "\<not> flush_lock s" and "\<forall>k<4. \<not> faults s (length (history s) + k)"
  shows "open_data_base s =
     (True, s\<lparr>closed := False,
             history := history s @ [Store_open, Blocks_open, Transactions_open] @
               (if index_addresses s then [Addresses_open] else []) @ [Closed_write False]\<rparr>)"
proof -
  from assms(2) have f: "k < 4 \<Longrightarrow> \<not> faults s (length (history s) + k)" for k
    by blast
  from f [of 0] f [of 1] f [of 2] f [of 3] have
    "\<not> faults s (length (history s))" "\<not> faults s (Suc (length (history s)))"
    "\<not> faults s (Suc (Suc (length (history s))))"
    "\<not> faults s (Suc (Suc (Suc (length (history s)))))"
    by (simp_all add: numeral_eq_Suc)
  with assms(1) show ?thesis
    by (simp add: open_data_base_def store_open_def on_files_def faulty_def record_call_def)
qed

text \<open>
  C7, as stated, fails. Opening the store and then closing it closes the leaf stores in the
  order blocks, transactions, addresses, which is the order in which they were opened and not
  its reverse. And a first call whose \<^verbatim>\<open>blocks_->close()\<close> fails returns false.
\<close>

theorem close_order_not_reversed:
  "opening_order (history (snd (close (snd (open_data_base closed_store))))) =
     [Blocks, Transactions, Addresses] \<and>
   closing_order (history (snd (close (snd (open_data_base closed_store))))) =
     [Blocks, Transactions, Addresses] \<and>
   closing_order (history (snd (close (snd (open_data_base closed_store))))) \<noteq>
     rev (opening_order (history (snd (close (snd (open_data_base closed_store)))))) \<and>
   history (snd (close (genesis_store\<lparr>faults := (\<lambda>n. n = 1)\<rparr>))) =
     [Closed_write True, Blocks_close] \<and>
   fst (close (genesis_store\<lparr>faults := (\<lambda>n. n = 1)\<rparr>)) = False"
  by (simp add: close_def open_data_base_def on_files_def store_close_def store_open_def
      faulty_def record_call_def closed_store_def genesis_store_def opening_order_def
      closing_order_def)

text \<open>
  C7, amended. A call of \<open>close\<close> that finds the closed flag set returns true and touches
  nothing. A call that finds it clear assigns the flag before it closes any leaf, whatever
  the leaves then answer: the assignment is the first thing the call does, only leaf closes
  and \<^verbatim>\<open>store::close\<close> follow it, and the flag is set when the call returns. On an open
  store whose leaf closes and \<^verbatim>\<open>store::close\<close> succeed, calling \<open>close\<close> \<open>n \<ge> 1\<close> times
  returns true every time and closes each leaf exactly once, all in the first call: blocks,
  then transactions, then addresses when they are indexed, then \<^verbatim>\<open>store::close\<close>. That is
  the order in which \<open>open\<close> opens them: a successful \<open>open\<close> calls \<^verbatim>\<open>store::open\<close>, opens
  blocks, transactions, and addresses when they are indexed, and then clears the flag.
\<close>

theorem close_idempotent:
  "closed (snd (close s)) \<and>
   (closed s \<longrightarrow> close s = (True, s)) \<and>
   (\<not> closed s \<longrightarrow>
      (\<exists>es. history (snd (close s)) = history s @ Closed_write True # es \<and>
            set es \<subseteq> {Blocks_close, Transactions_close, Addresses_close, Store_close})) \<and>
   (\<not> closed s \<and> (\<forall>k<5. \<not> faults s (length (history s) + k)) \<and> 0 < n \<longrightarrow>
      close_times n s =
        (replicate n True,
         s\<lparr>closed := True,
           history := history s @ [Closed_write True, Blocks_close, Transactions_close] @
             (if index_addresses s then [Addresses_close] else []) @ [Store_close]\<rparr>)) \<and>
   (\<not> flush_lock s \<and> (\<forall>k<4. \<not> faults s (length (history s) + k)) \<longrightarrow>
      open_data_base s =
        (True,
         s\<lparr>closed := False,
           history := history s @ [Store_open, Blocks_open, Transactions_open] @
             (if index_addresses s then [Addresses_open] else []) @ [Closed_write False]\<rparr>))"
proof -
  have "close_times n s =
        (replicate n True,
         s\<lparr>closed := True,
           history := history s @ [Closed_write True, Blocks_close, Transactions_close] @
             (if index_addresses s then [Addresses_close] else []) @ [Store_close]\<rparr>)"
    if o: "\<not> closed s" and f: "\<forall>k<5. \<not> faults s (length (history s) + k)" and n: "0 < n"
  proof -
    from n obtain m where m: "n = Suc m"
      by (cases n) auto
    show ?thesis
      unfolding m by (simp add: close_first [OF o f] close_times_closed)
  qed
  then show ?thesis
    using close_sets_flag [of s] close_when_closed [of s] close_flag_first [of s]
      open_first [of s]
    by blast
qed

theorem close_idempotent_witness:
  "close_times 3 genesis_store =
     ([True, True, True],
      genesis_store\<lparr>closed := True,
        history := [Closed_write True, Blocks_close, Transactions_close, Addresses_close,
                    Store_close]\<rparr>) \<and>
   close closed_store = (True, closed_store) \<and>
   open_data_base closed_store =
     (True,
      closed_store\<lparr>closed := False,
        history := [Store_open, Blocks_open, Transactions_open, Addresses_open,
                    Closed_write False]\<rparr>) \<and>
   (\<exists>es. history (snd (close (genesis_store\<lparr>faults := (\<lambda>n. n = 1)\<rparr>))) =
            Closed_write True # es)"
proof -
  let ?f = "genesis_store\<lparr>faults := (\<lambda>n. n = 1)\<rparr>"
  have g: "\<not> closed genesis_store"
      "\<forall>k<5. \<not> faults genesis_store (length (history genesis_store) + k)"
      "index_addresses genesis_store" "history genesis_store = []"
    by (simp_all add: genesis_store_def)
  have c: "closed closed_store" "\<not> flush_lock closed_store" "index_addresses closed_store"
      "\<forall>k<4. \<not> faults closed_store (length (history closed_store) + k)"
      "history closed_store = []"
    by (simp_all add: genesis_store_def closed_store_def)
  have f: "\<not> closed ?f" "history ?f = []"
    by (simp_all add: genesis_store_def)
  from close_idempotent [of genesis_store 3] g
  have 1: "close_times 3 genesis_store =
     ([True, True, True],
      genesis_store\<lparr>closed := True,
        history := [Closed_write True, Blocks_close, Transactions_close, Addresses_close,
                    Store_close]\<rparr>)"
    by (simp add: numeral_eq_Suc)
  from close_idempotent [of closed_store 1] c
  have 2: "close closed_store = (True, closed_store)"
    and 3: "open_data_base closed_store =
     (True,
      closed_store\<lparr>closed := False,
        history := [Store_open, Blocks_open, Transactions_open, Addresses_open,
                    Closed_write False]\<rparr>)"
    by simp_all
  from close_idempotent [of ?f 1] f(1)
  have "\<exists>es. history (snd (close ?f)) = history ?f @ Closed_write True # es \<and>
            set es \<subseteq> {Blocks_close, Transactions_close, Addresses_close, Store_close}"
    by blast
  then have 4: "\<exists>es. history (snd (close ?f)) = Closed_write True # es"
    unfolding f(2) by auto
  from 1 2 3 4 show ?thesis
    by blast
qed

section \<open>invalidate\<close>

lemma invalidate_unfold:
  "verify_exists (blocks_db s) h = success \<Longrightarrow>
   invalidate h err s =
     (if faulty s then (store_lock_failure, h, snd (begin_write s))
      else if \<not> fst (blocks_validate (hash h) err (snd (begin_write s)))
      then (operation_failed, h,
            snd (end_write (snd (blocks_validate (hash h) err (snd (begin_write s))))))
      else (if fst (end_write (snd (blocks_validate (hash h) err (snd (begin_write s)))))
            then success else store_lock_failure,
            h\<lparr>metadata := (metadata h)\<lparr>error := err, validated := True\<rparr>\<rparr>,
            snd (end_write (snd (blocks_validate (hash h) err (snd (begin_write s)))))))"
  by (simp add: invalidate_def case_prod_beta)

text \<open>
  C8. For a header that is present in the block store and any error code, \<open>invalidate\<close>
  calls nothing but \<^verbatim>\<open>begin_write\<close>, \<^verbatim>\<open>blocks.validate\<close> with the header's hash and
  the code, and \<^verbatim>\<open>end_write\<close>: both indices and their tops, the transaction store and every
  other header record are the same before and after, and the header keeps its hash and
  parent. When the call returns \<open>success\<close>, the store records the header as validated with
  the given code and the header's metadata has \<open>error\<close> set to the code and \<open>validated\<close>
  set to true; and it does return \<open>success\<close> when none of its three calls fails.
\<close>

theorem invalidate_records_verdict_only:
  assumes "verify_exists (blocks_db s) h = success"
    and "invalidate h err s = (ec, h', s')"
  shows "candidate_index (blocks_db s') = candidate_index (blocks_db s) \<and>
         confirmed_index (blocks_db s') = confirmed_index (blocks_db s) \<and>
         block_database_top True (blocks_db s') = block_database_top True (blocks_db s) \<and>
         block_database_top False (blocks_db s') = block_database_top False (blocks_db s) \<and>
         transactions_db s' = transactions_db s \<and>
         (\<forall>k. k \<noteq> hash h \<longrightarrow> rows (blocks_db s') k = rows (blocks_db s) k) \<and>
         (\<exists>es. history s' = history s @ es \<and>
               set es \<subseteq> {Begin_write, Blocks_validate (hash h) err, End_write}) \<and>
         hash h' = hash h \<and> previous_block_hash h' = previous_block_hash h \<and>
         (ec = success \<longrightarrow>
            (\<exists>r. rows (blocks_db s) (hash h) = Some r \<and>
                  rows (blocks_db s') (hash h) =
                    Some (r\<lparr>row_validated := True, row_error := err\<rparr>)) \<and>
            h' = h\<lparr>metadata := (metadata h)\<lparr>error := err, validated := True\<rparr>\<rparr> \<and>
            history s' = history s @ [Begin_write, Blocks_validate (hash h) err, End_write]) \<and>
         (\<not> faults s (length (history s)) \<and> \<not> faults s (length (history s) + 1) \<and>
          \<not> faults s (length (history s) + 2) \<longrightarrow> ec = success)"
proof -
  let ?s1 = "snd (begin_write s)"
  let ?v = "blocks_validate (hash h) err ?s1"
  let ?s3 = "snd (end_write (snd ?v))"
  from assms(1) obtain r where r: "rows (blocks_db s) (hash h) = Some r"
    by (auto simp: verify_exists_def split: if_splits)
  note u = invalidate_unfold [OF assms(1), of err]
  have idx: "candidate_index (blocks_db ?s3) = candidate_index (blocks_db s)"
      "confirmed_index (blocks_db ?s3) = confirmed_index (blocks_db s)"
      "transactions_db ?s3 = transactions_db s"
      "\<forall>k. k \<noteq> hash h \<longrightarrow> rows (blocks_db ?s3) k = rows (blocks_db s) k"
      "history ?s3 = history s @ [Begin_write, Blocks_validate (hash h) err, End_write]"
    by (simp_all add: blocks_validate_frame)
  have fv: "fst ?v = (\<not> faults s (Suc (length (history s))))"
    by (simp add: blocks_validate_frame faulty_def r)
  have fe: "fst (end_write (snd ?v)) = (\<not> faults s (Suc (Suc (length (history s)))))"
    by (simp add: blocks_validate_frame faulty_def)
  have tops: "block_database_top c (blocks_db ?s3) = block_database_top c (blocks_db s)"
      "block_database_top c (blocks_db ?s1) = block_database_top c (blocks_db s)" for c
    by (rule top_cong; simp add: blocks_validate_frame)+
  consider (a) "faulty s" | (b) "\<not> faulty s" "\<not> fst ?v" | (c) "\<not> faulty s" "fst ?v"
    by blast
  then show ?thesis
  proof cases
    case a
    with u assms(2) have "ec = store_lock_failure" "h' = h" "s' = ?s1"
      by simp_all
    with a tops show ?thesis
      by (simp add: faulty_def)
  next
    case b
    with u assms(2) have e: "ec = operation_failed" "h' = h" "s' = ?s3"
      by simp_all
    from b fv have "faults s (Suc (length (history s)))"
      by simp
    with e idx tops show ?thesis
      by simp
  next
    case c
    with u assms(2) have e: "ec = (if fst (end_write (snd ?v)) then success else store_lock_failure)"
        "h' = h\<lparr>metadata := (metadata h)\<lparr>error := err, validated := True\<rparr>\<rparr>" "s' = ?s3"
      by simp_all
    have row: "rows (blocks_db ?s3) (hash h) = Some (r\<lparr>row_validated := True, row_error := err\<rparr>)"
      using blocks_validate_row [OF c(2)] r by simp
    from c(1) have nf: "\<not> faults s (length (history s))"
      by (simp add: faulty_def)
    from e(1) fe have ec: "ec = success \<longleftrightarrow> \<not> faults s (Suc (Suc (length (history s))))"
      by simp
    from e(2,3) idx row r tops ec nf show ?thesis
      by simp
  qed
qed

theorem invalidate_records_verdict_only_witness:
  "fst (invalidate (sample_header 102 101) (consensus_failure 3) sample_store) = success \<and>
   block_database_top False
     (blocks_db (snd (snd (invalidate (sample_header 102 101) (consensus_failure 3) sample_store))))
     = Some 2 \<and>
   rows (blocks_db (snd (snd (invalidate (sample_header 102 101) (consensus_failure 3)
     sample_store)))) 102 =
     Some ((sample_row 102 101 2 [2, 3])\<lparr>row_validated := True, row_error := consensus_failure 3\<rparr>)"
proof -
  have v: "verify_exists (blocks_db sample_store) (sample_header 102 101) = success"
    by (simp add: leaf_defs sample_defs)
  have e: "invalidate (sample_header 102 101) (consensus_failure 3) sample_store =
      (fst (invalidate (sample_header 102 101) (consensus_failure 3) sample_store),
       fst (snd (invalidate (sample_header 102 101) (consensus_failure 3) sample_store)),
       snd (snd (invalidate (sample_header 102 101) (consensus_failure 3) sample_store)))"
    by simp
  have t: "block_database_top False (blocks_db sample_store) = Some 2"
    "rows (blocks_db sample_store) 102 = Some (sample_row 102 101 2 [2, 3])"
    "hash (sample_header 102 101) = 102" "faults sample_store = (\<lambda>n. False)"
    by (simp_all add: leaf_defs sample_defs)
  from invalidate_records_verdict_only [OF v e] t show ?thesis
    by auto
qed

section \<open>The accessor's lock protocol\<close>

lemma mutex_foldl:
  "mutex (foldl apply_call a cs) =
     mutex a @ replicate (length (filter is_assign cs)) unlock_upgrade_and_lock_shared"
proof (induction cs arbitrary: a)
  case Nil
  then show ?case by simp
next
  case (Cons c cs)
  then show ?case
    by (cases c) (simp_all add: assign_def increment_def replicate_app_Cons_same)
qed

lemma lifetime_calls:
  "lifetime cs = lock_upgrade #
     replicate (length (filter is_assign cs)) unlock_upgrade_and_lock_shared @ [unlock_shared]"
  by (simp add: lifetime_def accessor_destruct_def mutex_foldl accessor_construct_def)

lemma run_downgrades:
  "run_mutex upgrade_held (replicate n unlock_upgrade_and_lock_shared @ [unlock_shared]) =
     (if n = 1 then Some not_held else None)"
proof (cases n)
  case 0
  then show ?thesis by simp
next
  case (Suc m)
  then show ?thesis by (cases m) simp_all
qed

text \<open>
  C9, as stated, fails: an accessor that is constructed and destroyed with no \<open>assign\<close> in
  between calls \<^verbatim>\<open>unlock_shared\<close> on a mutex it holds in upgradable-shared mode, which the
  state machine does not allow.
\<close>

theorem accessor_unassigned_destruct_illegal:
  "lifetime [] = [lock_upgrade, unlock_shared] \<and> run_mutex not_held (lifetime []) = None"
  by (simp add: lifetime_def accessor_destruct_def accessor_construct_def)

text \<open>
  C9, amended. Over its whole life an accessor touches its mutex in exactly these calls: the
  constructor calls \<^verbatim>\<open>lock_upgrade\<close>, each \<open>assign\<close> calls
  \<^verbatim>\<open>unlock_upgrade_and_lock_shared\<close>, the destructor calls \<^verbatim>\<open>unlock_shared\<close>; no other
  member touches it. That sequence is a legal run of the lock state machine (and returns the
  mutex to no ownership) exactly when \<open>assign\<close> was called exactly once; with no \<open>assign\<close>,
  or with more than one, a call is made from a state that does not allow it.
\<close>

theorem accessor_lifetime_protocol:
  "lifetime cs =
     lock_upgrade #
       replicate (length (filter is_assign cs)) unlock_upgrade_and_lock_shared @ [unlock_shared]
   \<and> run_mutex not_held (lifetime cs) =
     (if length (filter is_assign cs) = 1 then Some not_held else None)"
  by (simp add: lifetime_calls run_downgrades)

theorem accessor_lifetime_protocol_witness:
  "lifetime [call_assign 4096, call_increment 8, call_buffer] =
     [lock_upgrade, unlock_upgrade_and_lock_shared, unlock_shared] \<and>
   run_mutex not_held (lifetime [call_assign 4096, call_increment 8, call_buffer]) = Some not_held \<and>
   run_mutex not_held (lifetime [call_assign 4096, call_assign 8192]) = None"
  using accessor_lifetime_protocol [of "[call_assign 4096, call_increment 8, call_buffer]"]
    accessor_lifetime_protocol [of "[call_assign 4096, call_assign 8192]"]
  by simp

section \<open>pop_block\<close>

lemma pop_block_cases:
  assumes "verify_top (blocks_db s) ht False = success"
    and "block_database_get ht False (blocks_db s) = Some result"
    and "to_transactions s result = Some ts"
  shows "\<exists>ec s'. pop_block out ht s =
           Some (ec, \<lparr>block_header = row_header (snd result), transactions = ts\<rparr>, s')"
  using assms by (simp add: pop_block_def Let_def split: prod.splits)

lemma pop_block_begin_fails:
  assumes "verify_top (blocks_db s) ht False = success"
    and "block_database_get ht False (blocks_db s) = Some result"
    and "to_transactions s result = Some ts"
    and "faulty s"
  shows "pop_block out ht s =
           Some (store_lock_failure,
                 \<lparr>block_header = row_header (snd result), transactions = ts\<rparr>,
                 record_call Begin_write s)"
  using assms by (simp add: pop_block_def Let_def begin_write_def)

text \<open>
  C10. When \<open>pop_block\<close> passes \<open>verify_top\<close> and fetches the block at the confirmed height,
  its out parameter holds that block's header and hydrated transactions whatever code the
  call then returns, so also when \<^verbatim>\<open>begin_write\<close>, an \<^verbatim>\<open>unconfirm\<close>, the
  \<^verbatim>\<open>unindex\<close> or \<^verbatim>\<open>end_write\<close> fails. The assignment comes before
  \<^verbatim>\<open>begin_write\<close>: when \<^verbatim>\<open>begin_write\<close> itself fails, the call returns
  \<open>store_lock_failure\<close> having made that one call only, and the out parameter is already
  overwritten.
\<close>

theorem pop_block_out_assigned_before_write:
  assumes "verify_top (blocks_db s) ht False = success"
    and "block_database_get ht False (blocks_db s) = Some result"
    and "to_transactions s result = Some ts"
  shows "(\<exists>ec s'. pop_block out ht s =
            Some (ec, \<lparr>block_header = row_header (snd result), transactions = ts\<rparr>, s')) \<and>
         (faulty s \<longrightarrow>
            pop_block out ht s =
              Some (store_lock_failure,
                    \<lparr>block_header = row_header (snd result), transactions = ts\<rparr>,
                    record_call Begin_write s))"
  using pop_block_cases [OF assms] pop_block_begin_fails [OF assms] by blast

lemma sample_confirmed_top:
  "verify_top (blocks_db (sample_store\<lparr>faults := f\<rparr>)) 2 False = success"
  "block_database_get 2 False (blocks_db (sample_store\<lparr>faults := f\<rparr>)) =
     Some (102, sample_row 102 101 2 [2, 3])"
  "to_transactions (sample_store\<lparr>faults := f\<rparr>) (102, sample_row 102 101 2 [2, 3]) =
     Some [\<lparr>tx_hash = 302, tx_metadata = \<lparr>link = 2, existed = True\<rparr>\<rparr>,
           \<lparr>tx_hash = 303, tx_metadata = \<lparr>link = 3, existed = True\<rparr>\<rparr>]"
  by (simp_all add: leaf_defs sample_defs to_transactions_def)

theorem pop_block_out_assigned_witness:
  "pop_block default_block 2 (sample_store\<lparr>faults := (\<lambda>n. n = 0)\<rparr>) =
     Some (store_lock_failure,
           \<lparr>block_header = sample_header 102 101,
            transactions = [\<lparr>tx_hash = 302, tx_metadata = \<lparr>link = 2, existed = True\<rparr>\<rparr>,
                            \<lparr>tx_hash = 303, tx_metadata = \<lparr>link = 3, existed = True\<rparr>\<rparr>]\<rparr>,
           record_call Begin_write (sample_store\<lparr>faults := (\<lambda>n. n = 0)\<rparr>))"
proof -
  have f: "faulty (sample_store\<lparr>faults := (\<lambda>n. n = 0)\<rparr>)"
    by (simp add: faulty_def sample_store_def)
  from pop_block_out_assigned_before_write
         [OF sample_confirmed_top [of "\<lambda>n. n = 0"], where out = default_block] f
  show ?thesis
    by (simp add: sample_row_def)
qed

end
